theory Spec2Isabelle
  imports Complex_Main "HOL-Library.Sublist" "HOL-Library.Product_Lexorder"
begin

section \<open>Strings and characters\<close>

text \<open>
  JavaScript strings are sequences of code units. The development models a string as a
  \<open>string\<close> (a \<open>char list\<close>) in which every \<open>char\<close> is one code unit in the range
  U+0000 .. U+00FF (the Latin-1 block), so \<open>length\<close> is the source's \<open>.length\<close> and the
  offsets of the source are list positions. Numbers of the source are modelled as exact
  integers and reals; every division of the source whose divisor can be zero is written
  out as the branch the source takes there. The source computes in double precision: a
  product such as \<open>0.575 * 100\<close> lies just below the exact value there, so where the exact
  value is a tie of \<open>Math.round\<close> the rounded result of the client functions
  \<open>computeAiLikelihood\<close> and \<open>computeSentenceAiScore\<close> and of \<open>highlightedPercent\<close> can
  be one below the one of the model. The sums of the server score are whole numbers
  unless a reference text is given, and are exact in both.
\<close>

definition isSpace :: "char \<Rightarrow> bool" where
  \<comment> \<open>the class \<open>\s\<close>, which is also what \<open>trim\<close> removes: TAB, LF, VT, FF, CR, space, NBSP\<close>
  "isSpace c = (c \<in> set [CHR 0x09, CHR 0x0A, CHR 0x0B, CHR 0x0C, CHR 0x0D, CHR 0x20, CHR 0xA0])"

definition toLowerChar :: "char \<Rightarrow> char" where
  \<comment> \<open>\<open>toLowerCase\<close> on one code unit: A-Z, and the Latin-1 capitals U+00C0 .. U+00DE
      without the multiplication sign U+00D7\<close>
  "toLowerChar c =
     (let n = (of_char c :: nat)
      in if (65 \<le> n \<and> n \<le> 90) \<or> (192 \<le> n \<and> n \<le> 222 \<and> n \<noteq> 215)
         then char_of (n + 32) else c)"

definition toLowerCase :: "string \<Rightarrow> string" where
  "toLowerCase s = map toLowerChar s"

definition trim :: "string \<Rightarrow> string" where
  "trim s = rev (dropWhile isSpace (rev (dropWhile isSpace s)))"

text \<open>\<open>s.replace(/\s+/g, ' ')\<close>: every maximal run of white space becomes one space.\<close>

function collapseWs :: "string \<Rightarrow> string" where
  "collapseWs [] = []"
| "collapseWs (c # cs) =
     (if isSpace c then CHR '' '' # collapseWs (dropWhile isSpace cs)
      else c # collapseWs cs)"
  by pat_completeness auto
termination
  by (relation "measure length") (auto simp: length_dropWhile_le less_Suc_eq_le)

text \<open>\<open>s.split(d)\<close> for a one-character separator; the empty string gives \<open>['']\<close>.\<close>

fun splitOn :: "char \<Rightarrow> string \<Rightarrow> string list" where
  "splitOn d [] = [[]]"
| "splitOn d (c # cs) =
     (if c = d then [] # splitOn d cs
      else (case splitOn d cs of [] \<Rightarrow> [[c]] | w # ws \<Rightarrow> (c # w) # ws))"


section \<open>Tokenizer\<close>

definition punctuationServer :: "char list" where
  \<comment> \<open>the class of \<open>normalizeToWords\<close> in server.js; it holds the backslash\<close>
  "punctuationServer =
     [CHR ''.'', CHR '','', CHR 0x5C, CHR ''/'', CHR ''#'', CHR ''!'', CHR ''$'', CHR ''%'',
      CHR ''^'', CHR ''&'', CHR ''*'', CHR '';'', CHR '':'', CHR ''{'', CHR ''}'', CHR ''='',
      CHR ''-'', CHR ''_'', CHR 0x60, CHR ''~'', CHR ''('', CHR '')'', CHR ''['', CHR '']'',
      CHR 0x22, CHR 0x27, CHR ''<'', CHR ''>'', CHR ''?'', CHR ''@'', CHR ''+'']"

definition punctuationClient :: "char list" where
  \<comment> \<open>the class of \<open>normalizeToWords\<close> in the client script; no backslash\<close>
  "punctuationClient =
     [CHR ''.'', CHR '','', CHR ''/'', CHR ''#'', CHR ''!'', CHR ''$'', CHR ''%'',
      CHR ''^'', CHR ''&'', CHR ''*'', CHR '';'', CHR '':'', CHR ''{'', CHR ''}'', CHR ''='',
      CHR ''-'', CHR ''_'', CHR 0x60, CHR ''~'', CHR ''('', CHR '')'', CHR ''['', CHR '']'',
      CHR 0x22, CHR 0x27, CHR ''<'', CHR ''>'', CHR ''?'', CHR ''@'', CHR ''+'']"

definition cleanText :: "char list \<Rightarrow> string \<Rightarrow> string" where
  \<comment> \<open>lower-case, delete the punctuation class, collapse white space, trim\<close>
  "cleanText punct text =
     trim (collapseWs (filter (\<lambda>c. c \<notin> set punct) (toLowerCase text)))"

definition normalizeToWords :: "string \<Rightarrow> string list" where
  \<comment> \<open>server.js\<close>
  "normalizeToWords text =
     filter (\<lambda>w. w \<noteq> []) (splitOn CHR '' '' (cleanText punctuationServer text))"

definition normalizeToWordsClient :: "string \<Rightarrow> string list" where
  \<comment> \<open>the client script: the empty cleaned text returns early\<close>
  "normalizeToWordsClient text =
     (let cleaned = cleanText punctuationClient text
      in if cleaned = [] then [] else filter (\<lambda>w. w \<noteq> []) (splitOn CHR '' '' cleaned))"

section \<open>Sentence splitting (server.js)\<close>

record sentence =
  s_text :: string
  s_start :: nat
  s_end :: nat

definition isTerminator :: "char \<Rightarrow> bool" where
  "isTerminator c = (c \<in> set [CHR ''.'', CHR ''!'', CHR ''?''])"

definition slice :: "string \<Rightarrow> nat \<Rightarrow> nat \<Rightarrow> string" where
  \<comment> \<open>\<open>text.slice(a, b)\<close> for \<open>0 \<le> a\<close>, \<open>0 \<le> b\<close>\<close>
  "slice s a b = take (b - a) (drop a s)"

text \<open>
  \<open>sentenceEndRegex.exec(text)\<close> for \<open>/[.!?]+/g\<close> with the regex's \<open>lastIndex\<close> at
  \<open>from\<close>: the leftmost maximal run of terminators at or after \<open>from\<close>, as
  (\<open>match.index\<close>, \<open>match[0].length\<close>), or \<open>None\<close> for \<open>null\<close>.
\<close>

definition execSentenceEnd :: "string \<Rightarrow> nat \<Rightarrow> (nat \<times> nat) option" where
  "execSentenceEnd text from =
     (let rest = drop from text;
          skipped = takeWhile (\<lambda>c. \<not> isTerminator c) rest
      in if length skipped = length rest then None
         else Some (from + length skipped,
                    length (takeWhile isTerminator (drop (length skipped) rest))))"

lemma execSentenceEnd_Some:
  assumes "execSentenceEnd text from = Some (idx, len)"
  shows "from \<le> idx" and "0 < len" and "idx + len \<le> length text"
proof -
  define rest where "rest = drop from text"
  define skipped where "skipped = takeWhile (\<lambda>c. \<not> isTerminator c) rest"
  define run where "run = takeWhile isTerminator (drop (length skipped) rest)"
  from assms have ne: "length skipped \<noteq> length rest"
    and idx: "idx = from + length skipped" and len: "len = length run"
    by (auto simp: execSentenceEnd_def Let_def rest_def skipped_def run_def split: if_splits)
  show "from \<le> idx" using idx by simp
  have split: "rest = skipped @ dropWhile (\<lambda>c. \<not> isTerminator c) rest"
    by (simp add: skipped_def)
  have dr: "drop (length skipped) rest = dropWhile (\<lambda>c. \<not> isTerminator c) rest"
    by (metis append_eq_conv_conj split)
  have dne: "dropWhile (\<lambda>c. \<not> isTerminator c) rest \<noteq> []"
    using ne split by (metis append_Nil2)
  then have "isTerminator (hd (dropWhile (\<lambda>c. \<not> isTerminator c) rest))"
    using hd_dropWhile by blast
  with dne show "0 < len"
    unfolding len run_def dr by (cases "dropWhile (\<lambda>c. \<not> isTerminator c) rest") auto
  have "length run \<le> length (drop (length skipped) rest)"
    unfolding run_def by (rule length_takeWhile_le)
  moreover have "length skipped \<le> length rest"
    unfolding skipped_def by (rule length_takeWhile_le)
  ultimately have "length skipped + length run \<le> length rest" by simp
  moreover have "from < length text"
  proof (rule ccontr)
    assume "\<not> from < length text"
    then have "rest = []" by (simp add: rest_def)
    with dne show False by simp
  qed
  ultimately show "idx + len \<le> length text"
    unfolding idx len rest_def by simp
qed

lemma execSentenceEnd_decreases:
  "execSentenceEnd text from = Some (idx, len) \<Longrightarrow> length text - (idx + len) < length text - from"
  using execSentenceEnd_Some [of "text" "from" idx len] by linarith

text \<open>
  The \<open>while\<close> loop of \<open>splitSentencesWithPosition\<close>, with its two variables
  \<open>lastIndex\<close> and \<open>sentences\<close>; it returns both when \<open>exec\<close> gives \<open>null\<close>.
\<close>

function splitLoop :: "string \<Rightarrow> nat \<Rightarrow> sentence list \<Rightarrow> sentence list \<times> nat" where
  "splitLoop text lastIndex sentences =
     (case execSentenceEnd text lastIndex of
        None \<Rightarrow> (sentences, lastIndex)
      | Some (idx, len) \<Rightarrow>
          (let endIndex = idx + len;
               sentence = trim (slice text lastIndex endIndex)
           in splitLoop text endIndex
                (if sentence \<noteq> []
                 then sentences @ [\<lparr>s_text = sentence, s_start = lastIndex, s_end = endIndex\<rparr>]
                 else sentences)))"
  by pat_completeness auto
termination
  by (relation "measure (\<lambda>(text, lastIndex, sentences). length text - lastIndex)")
     (auto dest: execSentenceEnd_decreases)

declare splitLoop.simps [simp del]

definition splitSentencesWithPosition :: "string \<Rightarrow> sentence list" where
  "splitSentencesWithPosition text =
     (case splitLoop text 0 [] of (sentences, lastIndex) \<Rightarrow>
        if lastIndex < length text
        then (let remaining = trim (drop lastIndex text)
              in if remaining \<noteq> []
                 then sentences @ [\<lparr>s_text = remaining, s_start = lastIndex, s_end = length text\<rparr>]
                 else sentences)
        else sentences)"


section \<open>AI likelihood (server.js)\<close>

definition mean :: "real list \<Rightarrow> real" where
  "mean arr = (if arr = [] then 0 else sum_list arr / real (length arr))"

definition stddev :: "real list \<Rightarrow> real" where
  "stddev arr =
     (if length arr \<le> 1 then 0
      else (let m = mean arr
            in sqrt (sum_list (map (\<lambda>x. (x - m)\<^sup>2) arr) / (real (length arr) - 1))))"

definition sentenceLengths :: "string list \<Rightarrow> nat list" where
  "sentenceLengths sentences =
     filter (\<lambda>n. 0 < n) (map (\<lambda>s. length (normalizeToWords s)) sentences)"

definition consistencyPoints :: "nat list \<Rightarrow> real" where
  "consistencyPoints lengths =
     (let avgLen = mean (map real lengths); sdLen = stddev (map real lengths)
      in if 12 \<le> avgLen \<and> avgLen \<le> 20 \<and> sdLen < 6 then 20 else 0)"

text \<open>
  \<open>Math.max(...lengths) - Math.min(...lengths)\<close> spreads the array into the arguments of
  one call, one argument for every sentence with a word. An engine accepts only so many
  arguments in a call and throws a \<open>RangeError\<close> beyond; the language fixes no value, so
  the largest accepted number, \<open>argLimit\<close>, is a parameter of the model. The error is a
  value: \<open>Inl RangeError\<close>.
\<close>

datatype error = RangeError

definition variationPoints :: "nat \<Rightarrow> nat list \<Rightarrow> error + real" where
  \<comment> \<open>for no lengths, \<open>Math.max()\<close> is \<open>-Infinity\<close> and \<open>Math.min()\<close> is \<open>Infinity\<close>: the
      variation is \<open>-Infinity\<close>, below 8\<close>
  "variationPoints argLimit lengths =
     (if argLimit < length lengths then Inl RangeError
      else Inr (case lengths of
                  [] \<Rightarrow> 15
                | n # ns \<Rightarrow> if int (fold max ns n) - int (fold min ns n) < 8 then 15 else 0))"

definition vocabularyPoints :: "string list \<Rightarrow> real" where
  "vocabularyPoints words =
     (let uniqueRatio = real (length (remdups words)) / real (length words)
      in if uniqueRatio < 0.6 then 15 else 0)"

definition sentenceStarters :: "string list \<Rightarrow> string list" where
  \<comment> \<open>\<open>s.split(" ")[0]?.toLowerCase()\<close>; \<open>split\<close> never gives an empty array\<close>
  "sentenceStarters sentences =
     map (\<lambda>s. toLowerCase (case splitOn CHR '' '' s of [] \<Rightarrow> [] | w # ws \<Rightarrow> w)) sentences"

definition starterPoints :: "string list \<Rightarrow> real" where
  \<comment> \<open>for no sentences the ratio is \<open>0 / 0 = NaN\<close>, and \<open>NaN < 0.5\<close> is false\<close>
  "starterPoints sentences =
     (let starters = sentenceStarters sentences
      in if starters = [] then 0
         else if real (length (remdups starters)) / real (length starters) < 0.5 then 10
         else 0)"

definition phrases :: "string list" where
  "phrases =
     [''in conclusion'', ''overall'', ''furthermore'', ''moreover'',
      ''it is important to note'', ''this highlights that'',
      ''on the other hand'', ''as a result'', ''in summary'',
      ''this demonstrates'', ''it can be observed'', ''in addition'']"

definition includesStr :: "string \<Rightarrow> string \<Rightarrow> bool" where
  \<comment> \<open>\<open>s.includes(p)\<close>\<close>
  "includesStr s p = sublist p s"

definition phrasePoints :: "string \<Rightarrow> real" where
  "phrasePoints text =
     (let lower = toLowerCase text;
          hits = length (filter (\<lambda>p. includesStr lower p) phrases)
      in real (min (hits * 6) 20))"

text \<open>
  The number of matches of \<open>/,,|!!|\?\?| {2,}/g\<close>, found from left to right without
  overlap; a run of spaces is one match.
\<close>

function countIrregular :: "string \<Rightarrow> nat" where
  "countIrregular [] = 0"
| "countIrregular [c] = 0"
| "countIrregular (c # d # cs) =
     (if c = d \<and> c \<in> set [CHR '','', CHR ''!'', CHR ''?''] then 1 + countIrregular cs
      else if c = CHR '' '' \<and> d = CHR '' ''
      then 1 + countIrregular (dropWhile (\<lambda>x. x = CHR '' '') cs)
      else countIrregular (d # cs))"
  by pat_completeness auto
termination
  by (relation "measure length") (auto simp: length_dropWhile_le less_Suc_eq_le le_SucI)

definition punctuationPoints :: "string \<Rightarrow> real" where
  "punctuationPoints text = (if countIrregular text = 0 then 10 else 0)"

definition repeatedCount :: "string list \<Rightarrow> nat" where
  \<comment> \<open>the number of values above 4 in \<open>freq\<close>. \<open>freq\<close> starts as \<open>{}\<close>, whose inherited
      property \<open>constructor\<close> is a function: the entry of the word ``constructor'' becomes
      a string, and a string is never above 4\<close>
  "repeatedCount words =
     length (filter (\<lambda>w. w \<noteq> ''constructor'' \<and> 4 < count_list words w) (remdups words))"

definition repetitionPoints :: "string list \<Rightarrow> real" where
  "repetitionPoints words =
     (if real (repeatedCount words) > real (length words) * 0.05 then 10 else 0)"

definition referencePoints :: "string \<Rightarrow> string list \<Rightarrow> real" where
  \<comment> \<open>\<open>referenceText\<close> is the content of reference.txt, empty when the file is missing\<close>
  "referencePoints referenceText words =
     (if referenceText \<noteq> []
      then (let refWords = normalizeToWords referenceText;
                matches = filter (\<lambda>w. w \<in> set refWords) words;
                refRatio = real (length matches) / real (length words)
            in if refRatio > 0.05 then refRatio * 30 else 0)
      else 0)"

definition longDocumentPoints :: "string list \<Rightarrow> real" where
  "longDocumentPoints sentences =
     (let sentenceCount = length sentences;
          avgLen = mean (map real (sentenceLengths sentences))
      in if 8 < sentenceCount \<and> 14 < avgLen then 5 else 0)"

definition rawScore ::
  "nat \<Rightarrow> string \<Rightarrow> string \<Rightarrow> string list \<Rightarrow> string list \<Rightarrow> error + real" where
  \<comment> \<open>the variable \<open>score\<close> before it is rounded; the only statement that can throw is the
      one of the variation\<close>
  "rawScore argLimit referenceText text sentences words =
     (case variationPoints argLimit (sentenceLengths sentences) of
        Inl e \<Rightarrow> Inl e
      | Inr variation \<Rightarrow>
          Inr (consistencyPoints (sentenceLengths sentences)
               + variation
               + vocabularyPoints words
               + starterPoints sentences
               + phrasePoints text
               + punctuationPoints text
               + repetitionPoints words
               + referencePoints referenceText words
               + longDocumentPoints sentences))"

definition computeAiLikelihood ::
  "nat \<Rightarrow> string \<Rightarrow> string \<Rightarrow> string list \<Rightarrow> string list \<Rightarrow> error + int" where
  \<comment> \<open>\<open>Math.round(x)\<close> is \<open>\<lfloor>x + 1/2\<rfloor>\<close>, which is \<open>round\<close>\<close>
  "computeAiLikelihood argLimit referenceText text sentences words =
     (if words = [] then Inr 0
      else (case rawScore argLimit referenceText text sentences words of
              Inl e \<Rightarrow> Inl e
            | Inr score \<Rightarrow> Inr (min (round score) 100)))"

definition labelAiScore :: "int \<Rightarrow> string" where
  "labelAiScore pct =
     (if pct < 35 then ''Human-written''
      else if pct < 70 then ''Mixed (AI + Human)''
      else ''Likely AI-generated'')"

definition labelAiScoreClient :: "int \<Rightarrow> string" where
  \<comment> \<open>the client script\<close>
  "labelAiScoreClient pct =
     (if pct \<le> 30 then ''Human-written''
      else if pct \<le> 60 then ''Mixed''
      else ''Likely AI-generated'')"

record highlight =
  h_text :: string
  h_start :: nat
  h_end :: nat
  h_score :: int
  h_label :: string

text \<open>\<open>xs.map(f)\<close> for a callback that can throw: the first error ends the map.\<close>

fun collect :: "(error + 'a) list \<Rightarrow> error + 'a list" where
  "collect [] = Inr []"
| "collect (x # xs) =
     (case x of
        Inl e \<Rightarrow> Inl e
      | Inr v \<Rightarrow> (case collect xs of Inl e \<Rightarrow> Inl e | Inr vs \<Rightarrow> Inr (v # vs)))"

definition analyzeSentence :: "nat \<Rightarrow> string \<Rightarrow> sentence \<Rightarrow> error + highlight" where
  \<comment> \<open>the callback of the \<open>map\<close> in \<open>analyzeSentences\<close>\<close>
  "analyzeSentence argLimit referenceText s =
     (let words = normalizeToWords (s_text s)
      in case computeAiLikelihood argLimit referenceText (s_text s) [s_text s] words of
           Inl e \<Rightarrow> Inl e
         | Inr score \<Rightarrow>
             Inr \<lparr>h_text = s_text s, h_start = s_start s, h_end = s_end s,
                  h_score = score, h_label = labelAiScore score\<rparr>)"

definition analyzeSentences :: "nat \<Rightarrow> string \<Rightarrow> string \<Rightarrow> error + highlight list" where
  "analyzeSentences argLimit referenceText text =
     collect (map (analyzeSentence argLimit referenceText) (splitSentencesWithPosition text))"

record response =
  r_wordCount :: nat
  r_sentenceCount :: nat
  r_aiLikelihood :: int
  r_aiLabel :: string
  r_preview :: string
  r_highlights :: "highlight list"

definition analyze :: "nat \<Rightarrow> string \<Rightarrow> string \<Rightarrow> error + response" where
  \<comment> \<open>the body of the \<open>/analyze\<close> handler, from the extracted text on. An error is caught
      by the handler, which then answers with status 500 and ``Analysis failed'' instead
      of a result\<close>
  "analyze argLimit referenceText text =
     (let words = normalizeToWords text
      in case computeAiLikelihood argLimit referenceText text
                (map s_text (splitSentencesWithPosition text)) words of
           Inl e \<Rightarrow> Inl e
         | Inr aiScore \<Rightarrow>
             (case analyzeSentences argLimit referenceText text of
                Inl e \<Rightarrow> Inl e
              | Inr highlights \<Rightarrow>
                  Inr \<lparr>r_wordCount = length words, r_sentenceCount = length highlights,
                       r_aiLikelihood = aiScore, r_aiLabel = labelAiScore aiScore,
                       r_preview = slice text 0 300, r_highlights = highlights\<rparr>))"

section \<open>Regular expressions of the client script\<close>

text \<open>
  The client script matches with regular expressions throughout. A regular expression of
  the source is written as a term of \<open>regex\<close>, and \<open>ends r t i\<close> lists the end positions of
  the matches of \<open>r\<close> in \<open>t\<close> that start at position \<open>i\<close>, in the order in which the
  backtracking matcher of the language tries them: the first one is the match it reports.
\<close>

datatype regex =
    OneOf "char list"
  | NoneOf "char list"
  | AnyChar
  | WordBoundary
  | LineStart
  | LookBehind "char list"
  | Empty
  | Seq regex regex
  | Alt regex regex
  | Star regex

definition wordChars :: "char list" where
  \<comment> \<open>the class \<open>\w\<close>\<close>
  "wordChars = ''abcdefghijklmnopqrstuvwxyzABCDEFGHIJKLMNOPQRSTUVWXYZ0123456789_''"

definition digitChars :: "char list" where
  \<comment> \<open>the class \<open>\d\<close>\<close>
  "digitChars = ''0123456789''"

definition spaceChars :: "char list" where
  \<comment> \<open>the class \<open>\s\<close>\<close>
  "spaceChars = [CHR 0x09, CHR 0x0A, CHR 0x0B, CHR 0x0C, CHR 0x0D, CHR 0x20, CHR 0xA0]"

definition lowerChars :: "char list" where
  "lowerChars = ''abcdefghijklmnopqrstuvwxyz''"

definition upperChars :: "char list" where
  "upperChars = ''ABCDEFGHIJKLMNOPQRSTUVWXYZ''"

definition wordAt :: "string \<Rightarrow> nat \<Rightarrow> bool" where
  "wordAt t i = (i < length t \<and> t ! i \<in> set wordChars)"

text \<open>
  \<open>starEnds f n i\<close>: the ends of \<open>r*\<close> from \<open>i\<close>, where \<open>f\<close> gives the ends of \<open>r\<close>. The
  quantifier is greedy, so one more round of \<open>r\<close> is tried before stopping, and a round
  that consumes nothing is rejected. Every round consumes a character, so
  \<open>n = length t - i\<close> rounds are all there can be.
\<close>

fun starEnds :: "(nat \<Rightarrow> nat list) \<Rightarrow> nat \<Rightarrow> nat \<Rightarrow> nat list" where
  "starEnds f 0 i = [i]"
| "starEnds f (Suc n) i = concat (map (\<lambda>j. if i < j then starEnds f n j else []) (f i)) @ [i]"

primrec ends :: "regex \<Rightarrow> string \<Rightarrow> nat \<Rightarrow> nat list" where
  "ends (OneOf cs) t i = (if i < length t \<and> t ! i \<in> set cs then [Suc i] else [])"
| "ends (NoneOf cs) t i = (if i < length t \<and> t ! i \<notin> set cs then [Suc i] else [])"
| "ends AnyChar t i =
     (if i < length t \<and> t ! i \<notin> set [CHR 0x0A, CHR 0x0D] then [Suc i] else [])"
| "ends WordBoundary t i = (if (0 < i \<and> wordAt t (i - 1)) \<noteq> wordAt t i then [i] else [])"
| "ends LineStart t i = (if i = 0 then [i] else [])"
| "ends (LookBehind cs) t i =
     (if 0 < i \<and> i - 1 < length t \<and> t ! (i - 1) \<in> set cs then [i] else [])"
| "ends Empty t i = [i]"
| "ends (Seq a b) t i = concat (map (ends b t) (ends a t i))"
| "ends (Alt a b) t i = ends a t i @ ends b t i"
| "ends (Star a) t i = starEnds (ends a t) (length t - i) i"

definition oneOrMore :: "regex \<Rightarrow> regex" where
  \<comment> \<open>\<open>r+\<close>\<close>
  "oneOrMore r = Seq r (Star r)"

definition twoOrMore :: "regex \<Rightarrow> regex" where
  \<comment> \<open>\<open>r{2,}\<close>\<close>
  "twoOrMore r = Seq r (Seq r (Star r))"

definition lit :: "string \<Rightarrow> regex" where
  \<comment> \<open>a sequence of literal characters\<close>
  "lit w = foldr (\<lambda>c r. Seq (OneOf [c]) r) w Empty"

definition toUpperChar :: "char \<Rightarrow> char" where
  "toUpperChar c =
     (let n = (of_char c :: nat) in if 97 \<le> n \<and> n \<le> 122 then char_of (n - 32) else c)"

definition litI :: "string \<Rightarrow> regex" where
  \<comment> \<open>a sequence of literal lower-case letters and spaces under the flag \<open>i\<close>\<close>
  "litI w = foldr (\<lambda>c r. Seq (OneOf [c, toUpperChar c]) r) w Empty"

definition alts :: "regex list \<Rightarrow> regex" where
  \<comment> \<open>\<open>(r1|r2|...)\<close>, for at least one alternative\<close>
  "alts rs = (case rs of [] \<Rightarrow> Empty | r # rs' \<Rightarrow> foldl Alt r rs')"

definition seqs :: "regex list \<Rightarrow> regex" where
  "seqs rs = foldr Seq rs Empty"

definition wholeWord :: "regex \<Rightarrow> regex" where
  \<comment> \<open>\<open>\br\b\<close>\<close>
  "wholeWord r = Seq WordBoundary (Seq r WordBoundary)"

definition test :: "regex \<Rightarrow> string \<Rightarrow> bool" where
  \<comment> \<open>\<open>r.test(t)\<close> for a regex without the flag \<open>g\<close>: some position starts a match\<close>
  "test r t = list_ex (\<lambda>i. ends r t i \<noteq> []) [0..<Suc (length t)]"

text \<open>
  \<open>t.match(r)\<close> for a regex with the flag \<open>g\<close>, as the list of (start, end) of the
  matches: the leftmost match at or after the current position, then on from its end; an
  empty match moves the position one character on. An end is never before its start,
  so \<open>max e (Suc i)\<close> is \<open>e\<close> for a match that is not empty.
\<close>

function matchesFrom :: "regex \<Rightarrow> string \<Rightarrow> nat \<Rightarrow> (nat \<times> nat) list" where
  "matchesFrom r t i =
     (if length t < i then []
      else (case ends r t i of
              [] \<Rightarrow> matchesFrom r t (Suc i)
            | e # es \<Rightarrow> (i, e) # matchesFrom r t (max e (Suc i))))"
  by pat_completeness auto
termination
  by (relation "measure (\<lambda>(r, t, i). Suc (length t) - i)") auto

declare matchesFrom.simps [simp del]

definition countMatches :: "regex \<Rightarrow> string \<Rightarrow> nat" where
  \<comment> \<open>\<open>(t.match(r) || []).length\<close>\<close>
  "countMatches r t = length (matchesFrom r t 0)"

definition matchStrings :: "regex \<Rightarrow> string \<Rightarrow> string list" where
  "matchStrings r t = map (\<lambda>(a, b). slice t a b) (matchesFrom r t 0)"

fun rebuild :: "string \<Rightarrow> string \<Rightarrow> nat \<Rightarrow> (nat \<times> nat) list \<Rightarrow> string" where
  "rebuild t rep pos [] = drop pos t"
| "rebuild t rep pos ((a, b) # ms) = slice t pos a @ rep @ rebuild t rep b ms"

definition replaceAll :: "regex \<Rightarrow> string \<Rightarrow> string \<Rightarrow> string" where
  \<comment> \<open>\<open>t.replace(r, rep)\<close> for a regex with the flag \<open>g\<close> and a replacement without \<open>$\<close>\<close>
  "replaceAll r rep t = rebuild t rep 0 (matchesFrom r t 0)"

text \<open>
  \<open>t.split(r)\<close>: \<open>p\<close> is the start of the current piece and \<open>q\<close> the position where the
  separator is tried; a separator that ends at \<open>p\<close> is skipped.
\<close>

function splitFrom :: "regex \<Rightarrow> string \<Rightarrow> nat \<Rightarrow> nat \<Rightarrow> string list" where
  "splitFrom r t p q =
     (if length t \<le> q then [slice t p (length t)]
      else (case ends r t q of
              [] \<Rightarrow> splitFrom r t p (Suc q)
            | e # es \<Rightarrow>
                if min e (length t) = p then splitFrom r t p (Suc q)
                else slice t p q # splitFrom r t (min e (length t)) (max (min e (length t)) (Suc q))))"
  by pat_completeness auto
termination
  by (relation "measure (\<lambda>(r, t, p, q). length t - q)") auto

declare splitFrom.simps [simp del]

definition splitRegex :: "regex \<Rightarrow> string \<Rightarrow> string list" where
  "splitRegex r t =
     (if t = [] then (if ends r t 0 \<noteq> [] then [] else [t]) else splitFrom r t 0 0)"


section \<open>The client script: sentences, similarity, AI likelihood\<close>

definition splitToSentences :: "string \<Rightarrow> string list" where
  \<comment> \<open>\<open>text.replace(/\n+/g, ' ').split(/(?<=[.!?])\s+/)\<close>, trimmed, without the empty parts\<close>
  "splitToSentences text =
     filter (\<lambda>s. s \<noteq> [])
       (map trim
          (splitRegex (Seq (LookBehind ''.!?'') (oneOrMore (OneOf spaceChars)))
             (replaceAll (oneOrMore (OneOf [CHR 0x0A])) '' '' text)))"

definition computeSimilarityPercentage :: "string list \<Rightarrow> string list \<Rightarrow> real" where
  "computeSimilarityPercentage inputWords referenceWords =
     (if inputWords = [] then 0
      else (let common = length (filter (\<lambda>w. w \<in> set referenceWords) inputWords)
            in (real common / real (length inputWords)) * 100))"

record document =
  d_name :: string
  d_words :: "string list"

text \<open>
  The loop over \<open>j\<close> in the click handler that finds the best match of document \<open>i\<close>
  among the other documents of the batch; \<open>best\<close> starts as the empty name with 0.
\<close>

definition bestMatch :: "document list \<Rightarrow> nat \<Rightarrow> string \<times> real" where
  "bestMatch processed i =
     fold (\<lambda>j best.
             if i = j then best
             else (let other = processed ! j;
                       pct = computeSimilarityPercentage (d_words (processed ! i)) (d_words other)
                   in if pct > snd best then (d_name other, pct) else best))
          [0..<length processed] ([], 0)"

definition formalWords :: "string list" where
  \<comment> \<open>of \<open>computeAiLikelihood\<close> and \<open>computeSentenceAiScore\<close>; no word holds a character
      that the escaping \<open>replace\<close> of the source would change\<close>
  "formalWords =
     [''moreover'', ''furthermore'', ''therefore'', ''however'', ''hence'', ''thus'',
      ''consequently'', ''in conclusion'', ''whereas'', ''additionally'']"

definition countWholeWords :: "string list \<Rightarrow> string \<Rightarrow> nat" where
  \<comment> \<open>the loop \<open>for (const fw of ...) { m = lowered.match(/\bfw\b/g); if (m) count += m.length }\<close>\<close>
  "countWholeWords ws lowered = sum_list (map (\<lambda>fw. countMatches (wholeWord (lit fw)) lowered) ws)"

definition sentenceLengthsClient :: "string list \<Rightarrow> nat list" where
  "sentenceLengthsClient sentences =
     filter (\<lambda>n. 0 < n) (map (\<lambda>s. length (normalizeToWordsClient s)) sentences)"

definition computeAiLikelihoodClient :: "string \<Rightarrow> string list \<Rightarrow> string list \<Rightarrow> int" where
  "computeAiLikelihoodClient text sentences words =
     (if words = [] then 0
      else (let sentenceLengths = sentenceLengthsClient sentences;
                avg = mean (map real sentenceLengths);
                sd = stddev (map real sentenceLengths);
                consistency = (if 0 < avg then 1 - min 1 (sd / (avg + 1)) else 0);
                formalCount = countWholeWords formalWords (toLowerCase text);
                formalScore = min 1 (real formalCount
                                / max 1 (real (length sentenceLengths) * 0.3));
                uniqueCount = length (remdups words);
                vocabRatio = real uniqueCount / max 1 (real (length words));
                repetitionScore = min 1 ((1 - vocabRatio) * 1.5);
                punctuationScore = real (length (filter (\<lambda>c. c \<in> set ''!?.'') text))
                                   / max 1 (real (length (splitOn CHR '' '' text)));
                aiScore = consistency * 0.45 + formalScore * 0.3 + repetitionScore * 0.2
                          + punctuationScore * 0.05
            in round (max 0 (min 1 aiScore) * 100)))"

definition computeSentenceAiScore :: "string \<Rightarrow> int" where
  \<comment> \<open>the second argument of the source, \<open>docWords\<close>, is not used\<close>
  "computeSentenceAiScore sentence =
     (let text = trim sentence;
          words = normalizeToWordsClient text
      in if words = [] then 0
         else (let formalCount = countWholeWords formalWords (toLowerCase text);
                   formalScore = min 1 (real formalCount / 2);
                   uniqueCount = length (remdups words);
                   vocabRatio = real uniqueCount / max 1 (real (length words));
                   repetitionScore = min 1 ((1 - vocabRatio) * 1.8);
                   punctuationCount = length (filter (\<lambda>c. c \<in> set ''!?.'') text);
                   punctuationScore =
                     1 - min 1 (real punctuationCount
                                / max 1 (of_int \<lceil>real (length words) / 8\<rceil>));
                   score = formalScore * 0.35 + repetitionScore * 0.35 + punctuationScore * 0.3
               in round (max 0 (min 1 score) * 100)))"

section \<open>The client script: subjects\<close>

text \<open>
  The patterns of \<open>detectSubjects\<close> are string literals in single quotes, given to
  \<open>new RegExp(p, 'g')\<close>. In such a literal \<open>\b\<close> is the backspace character U+0008, and
  \<open>\.\<close> and \<open>\s\<close> are the characters \<open>.\<close> and \<open>s\<close>; so the regular expression built
  from \<open>'\bselect\b'\<close> matches a backspace, the letters of ``select'' and a backspace,
  the \<open>.\<close> is the regex dot, and \<open>s+\<close> is one or more letters s.
\<close>

definition bsWord :: "string \<Rightarrow> regex" where
  "bsWord w = lit (CHR 0x08 # w @ [CHR 0x08])"

definition subjectMap :: "(string \<times> regex list) list" where
  "subjectMap =
     [(''Programming'',
         [bsWord ''function'', bsWord ''def'', bsWord ''class'',
          seqs [lit (CHR 0x08 # ''console''), AnyChar, lit (''log'' @ [CHR 0x08])],
          seqs [lit (CHR 0x08 # ''System''), AnyChar, lit (''out'' @ [CHR 0x08])],
          lit ''#include'', bsWord ''import'', bsWord ''public'', bsWord ''private'',
          bsWord ''var'', bsWord ''let'', bsWord ''const'']),
      (''Data Structures'',
         [bsWord ''stack'', bsWord ''queue'', bsWord ''linked list'', bsWord ''binary tree'',
          bsWord ''hash table'', bsWord ''graph'', bsWord ''dfs'', bsWord ''bfs'']),
      (''Algorithms'',
         [bsWord ''sort'', bsWord ''search'', bsWord ''dynamic programming'', bsWord ''greedy'',
          bsWord ''binary search'', bsWord ''merge sort'', bsWord ''quick sort'']),
      (''Databases'',
         [bsWord ''select'', bsWord ''insert'', bsWord ''update'', bsWord ''delete'',
          bsWord ''from'', bsWord ''where'', bsWord ''join'', bsWord ''sql'', bsWord ''nosql'']),
      (''Operating Systems'',
         [bsWord ''process'', bsWord ''thread'', bsWord ''scheduler'', bsWord ''kernel'',
          bsWord ''mutex'', bsWord ''deadlock'']),
      (''Networks'',
         [bsWord ''protocol'', bsWord ''tcp'', bsWord ''udp'', bsWord ''ip'', bsWord ''routing'',
          bsWord ''layer'']),
      (''Software Engineering'',
         [bsWord ''uml'', bsWord ''requirements'', bsWord ''testing'',
          bsWord ''version control'', bsWord ''agile'', bsWord ''waterfall'']),
      (''Web Development'',
         [lit ''<html'', lit ''<body'', lit ''<script'', lit ''css'', bsWord ''http'',
          bsWord ''html'', bsWord ''css'', bsWord ''javascript'']),
      (''AI/ML'',
         [bsWord ''machine learning'', bsWord ''neural network'', bsWord ''deep learning'',
          bsWord ''classification'', bsWord ''regression'', bsWord ''svm'',
          seqs [bsWord ''python'', oneOrMore (OneOf ''s''), lit ''import'',
                oneOrMore (OneOf ''s''), lit ''tensorflow'']]),
      (''Cybersecurity'',
         [bsWord ''encryption'', bsWord ''ssl'', bsWord ''tls'', bsWord ''attack'',
          bsWord ''vulnerability'', bsWord ''crypt'']),
      (''Computer Architecture'',
         [bsWord ''cache'', bsWord ''instruction'', bsWord ''pipeline'', bsWord ''register'',
          bsWord ''alu''])]"

definition subjectScores :: "string \<Rightarrow> (string \<times> nat) list" where
  \<comment> \<open>the object \<open>scores\<close>: the subjects with at least one hit, in the order of the map\<close>
  "subjectScores text =
     (let lowered = toLowerCase text
      in filter (\<lambda>(subject, count). 0 < count)
           (map (\<lambda>(subject, patterns).
                   (subject, sum_list (map (\<lambda>p. countMatches p lowered) patterns)))
                subjectMap))"

definition detectSubjects :: "string \<Rightarrow> string list" where
  \<comment> \<open>\<open>sort\<close> is stable, as is \<open>sort_key\<close>; the comparator orders by falling count\<close>
  "detectSubjects text =
     (let sorted = map fst (sort_key (\<lambda>(subject, count). - int count) (subjectScores text))
      in if sorted \<noteq> [] then take 3 sorted else [''General''])"


section \<open>The client script: the content mark\<close>

text \<open>
  The argument of \<open>computeAiContentScore\<close>. The click handler builds it with the fields
  \<open>text\<close>, \<open>sentencesWithDelimiters\<close>, \<open>sentenceScores\<close>, \<open>highlightedPercent\<close>,
  \<open>topRepeatedWords\<close> and \<open>wordCount\<close>; the functions also read \<open>sentenceCount\<close> and
  \<open>charCount\<close>, which are \<open>undefined\<close> there: a count that may be missing is an option.
\<close>

record fileData =
  fd_text :: string
  fd_sentencesWithDelimiters :: "string list"
  fd_sentenceScores :: "real list"
  fd_highlightedPercent :: int
  fd_topRepeatedWords :: string
  fd_wordCount :: "nat option"
  fd_sentenceCount :: "nat option"
  fd_charCount :: "nat option"

definition orElse :: "nat option \<Rightarrow> nat \<Rightarrow> nat" where
  \<comment> \<open>\<open>x || d\<close> for a count \<open>x\<close>: \<open>undefined\<close> and 0 give \<open>d\<close>\<close>
  "orElse x d = (case x of None \<Rightarrow> d | Some n \<Rightarrow> if n = 0 then d else n)"

definition paragraphs :: "string \<Rightarrow> string list" where
  \<comment> \<open>\<open>text.split(/\n\n+/).filter(p => p.trim().length > 0)\<close>\<close>
  "paragraphs text =
     filter (\<lambda>p. 0 < length (trim p))
       (splitRegex (Seq (OneOf [CHR 0x0A]) (oneOrMore (OneOf [CHR 0x0A]))) text)"

definition populationVariance :: "real list \<Rightarrow> real" where
  \<comment> \<open>\<open>reduce((sum, x) => sum + Math.pow(x - avg, 2), 0) / length\<close>, for a list that is
      not empty, with \<open>avg\<close> the mean\<close>
  "populationVariance xs =
     (let avg = sum_list xs / real (length xs)
      in sum_list (map (\<lambda>x. (x - avg)\<^sup>2) xs) / real (length xs))"

definition computeStructureScore :: "fileData \<Rightarrow> real" where
  \<comment> \<open>without sentences the variance is \<open>0 / 0 = NaN\<close>, no comparison with it holds, and
      the variety score is 40\<close>
  "computeStructureScore fd =
     (let sentences = fd_sentencesWithDelimiters fd;
          paragraphCount = max 1 (length (paragraphs (fd_text fd)));
          avgSentencesPerPara = real (length sentences) / real paragraphCount;
          paraStructureScore =
            (if 2 \<le> avgSentencesPerPara \<and> avgSentencesPerPara \<le> 6 then 80
             else if 0 < avgSentencesPerPara then 50 else 20);
          sentenceLengths = map (\<lambda>s. real (length (normalizeToWordsClient s))) sentences;
          varietyScore =
            (if sentenceLengths = [] then 40
             else (let stdDev = sqrt (populationVariance sentenceLengths)
                   in if 3 < stdDev then 90 else if 1.5 < stdDev then 70 else 40))
      in paraStructureScore * 0.4 + varietyScore * 0.6)"

definition computeClarityScore :: "fileData \<Rightarrow> real" where
  "computeClarityScore fd =
     (let sentences = fd_sentencesWithDelimiters fd;
          sentenceScores = fd_sentenceScores fd;
          words = normalizeToWordsClient (fd_text fd);
          avgWordPerSentence =
            (if 0 < length sentences then real (length words) / real (length sentences) else 0);
          lengthScore =
            (if 8 < avgWordPerSentence \<and> avgWordPerSentence < 30 then 80
             else if 5 < avgWordPerSentence then 60 else 30)
      in if 1 < length sentenceScores
         then (let scoresStdDev = sqrt (populationVariance sentenceScores);
                   coherenceScore =
                     (if scoresStdDev < 20 then 85 else if scoresStdDev < 40 then 70 else 50)
               in lengthScore * 0.4 + coherenceScore * 0.6)
         else lengthScore)"

definition formalWordsQuality :: "string list" where
  "formalWordsQuality =
     [''moreover'', ''furthermore'', ''therefore'', ''however'', ''thus'', ''consequently'',
      ''additionally'', ''nevertheless'', ''indeed'', ''meanwhile'']"

definition computeLanguageQuality :: "fileData \<Rightarrow> real" where
  \<comment> \<open>the class of the source holds \<open>! ? ; : -\<close> and the em dash U+2014, which is no
      code unit of the modelled range\<close>
  "computeLanguageQuality fd =
     (let text = fd_text fd;
          words = normalizeToWordsClient text;
          uniqueWords = length (remdups words);
          vocabDiversity = (real uniqueWords / max 1 (real (length words))) * 100;
          diversityScore =
            (if 35 < vocabDiversity \<and> vocabDiversity < 75 then 90
             else if 20 < vocabDiversity then 70 else 40);
          formalCount = countWholeWords formalWordsQuality (toLowerCase text);
          formalScore =
            min 100 ((real formalCount / max 1 (real (orElse (fd_sentenceCount fd) 1)))
                     * 30 * 100 / 30);
          punctuation = length (filter (\<lambda>c. c \<in> set ''!?;:-'') text);
          punctScore = min 100 ((real punctuation / max 1 (real (length words))) * 300)
      in diversityScore * 0.4 + formalScore * 0.3 + punctScore * 0.3)"

definition computeContentDepth :: "fileData \<Rightarrow> real" where
  "computeContentDepth fd =
     (let words = orElse (fd_wordCount fd) 0;
          sentences = orElse (fd_sentenceCount fd) 0;
          charCount = orElse (fd_charCount fd) 0;
          lengthScore =
            (if words < 50 then 20 else if words < 150 then 40 else if words < 300 then 60
             else if words < 1000 then 80 else 95);
          avgCharPerWord = (if 0 < words then real charCount / real words else 0);
          densityScore =
            (if 3.5 < avgCharPerWord \<and> avgCharPerWord < 7 then 85
             else if 3 < avgCharPerWord then 70 else 50);
          sentenceDepth = min 100 ((real sentences / max 1 (real words)) * 20 * 100)
      in lengthScore * 0.5 + densityScore * 0.3 + sentenceDepth * 0.2)"

definition parseDecimal :: "string \<Rightarrow> nat" where
  \<comment> \<open>\<open>parseInt(ds, 10)\<close> for a string of decimal digits\<close>
  "parseDecimal ds = foldl (\<lambda>n c. 10 * n + (of_char c - 48)) 0 ds"

definition totalRepetition :: "string \<Rightarrow> nat" where
  \<comment> \<open>the sum of \<open>parseInt(match.slice(1, -1), 10)\<close> over the matches of \<open>/\((\d+)\)/g\<close>\<close>
  "totalRepetition topRepeatedWords =
     sum_list
       (map (\<lambda>m. parseDecimal (take (length m - 2) (drop 1 m)))
          (matchStrings (Seq (OneOf ''('') (Seq (oneOrMore (OneOf digitChars)) (OneOf '')'')))
             topRepeatedWords))"

definition computeOriginality :: "fileData \<Rightarrow> real" where
  "computeOriginality fd =
     (let words = normalizeToWordsClient (fd_text fd);
          repetitionRate =
            (real (totalRepetition (fd_topRepeatedWords fd)) / max 1 (real (length words))) * 100;
          repetitionScore = max 20 (100 - repetitionRate * 2);
          uniqueCount = length (remdups words);
          uniqueRatio = (real uniqueCount / max 1 (real (length words))) * 100;
          uniquenessScore = (if 40 < uniqueRatio then 90 else if 25 < uniqueRatio then 70 else 40)
      in repetitionScore * 0.5 + uniquenessScore * 0.5)"

definition computeRelevance :: "fileData \<Rightarrow> real" where
  \<comment> \<open>\<open>Math.max(0, n - 1)\<close> on a count \<open>n\<close> is the subtraction of \<open>nat\<close>\<close>
  "computeRelevance fd =
     (let text = fd_text fd;
          sentences = matchStrings (Seq (oneOrMore (NoneOf ''.!?'')) (OneOf ''.!?'')) text;
          properNouns =
            sum_list
              (map (\<lambda>s. countMatches
                           (wholeWord (Seq (OneOf upperChars) (oneOrMore (OneOf lowerChars))))
                           (trim s) - 1)
                 sentences);
          properNounScore = min 90 (max 40 (real properNouns * 3));
          numbers = countMatches (oneOrMore (OneOf digitChars)) text;
          numberScore = min 85 (real numbers * 2);
          questions = length (filter (\<lambda>c. c = CHR ''?'') text);
          questionScore = (if 0 < questions then 70 else 50)
      in properNounScore * 0.4 + numberScore * 0.3 + questionScore * 0.3)"

definition transitionWords :: "string list" where
  "transitionWords =
     [''moreover'', ''however'', ''therefore'', ''meanwhile'', ''furthermore'',
      ''additionally'', ''however'', ''thus'', ''hence'', ''consequently'', ''nevertheless'']"

definition patternChanges :: "nat list \<Rightarrow> nat" where
  \<comment> \<open>the loop runs from \<open>i = 1\<close>; there \<open>lengths[i-2]\<close> is \<open>undefined\<close> and both comparisons
      with it are false, so the rounds that can count start at \<open>i = 2\<close>\<close>
  "patternChanges lengths =
     length (filter (\<lambda>i. (lengths ! i > lengths ! (i - 1) \<and> lengths ! (i - 1) > lengths ! (i - 2))
                        \<or> (lengths ! i < lengths ! (i - 1) \<and> lengths ! (i - 1) < lengths ! (i - 2)))
               [2..<length lengths])"

definition computeConsistency :: "fileData \<Rightarrow> real" where
  "computeConsistency fd =
     (let sentences = fd_sentencesWithDelimiters fd;
          text = fd_text fd;
          transitionCount = countWholeWords transitionWords (toLowerCase text);
          transitionScore =
            (if 0 < transitionCount then min 90 (50 + real transitionCount * 10) else 50);
          flowScore =
            (if 3 < length sentences
             then min 95 (50 + real (patternChanges
                                       (map (\<lambda>s. length (normalizeToWordsClient s)) sentences)) * 8)
             else 50);
          paragraphCount = length (paragraphs text);
          coherenceScore =
            (if 1 < paragraphCount then min 90 (60 + real paragraphCount * 3) else 50)
      in transitionScore * 0.4 + flowScore * 0.3 + coherenceScore * 0.3)"

definition finalScore :: "fileData \<Rightarrow> real" where
  "finalScore fd =
     computeStructureScore fd * 0.20 + computeClarityScore fd * 0.20
     + computeLanguageQuality fd * 0.15 + computeContentDepth fd * 0.15
     + computeOriginality fd * 0.10 + computeRelevance fd * 0.10
     + computeConsistency fd * 0.10"

definition computeAiContentScore :: "fileData \<Rightarrow> int" where
  \<comment> \<open>the guard \<open>!fileData\<close> of the source is for a missing argument\<close>
  "computeAiContentScore fd =
     (if normalizeToWordsClient (fd_text fd) = [] then 0
      else round (max 0 (min 100 (finalScore fd))))"

section \<open>The client script: highlight selection\<close>

definition hasRepeatedWord :: "string list \<Rightarrow> bool" where
  \<comment> \<open>\<open>Object.values(freq).some(c => c >= 3)\<close>; the entry of the word ``constructor'' is
      a string, as in \<open>repeatedCount\<close>\<close>
  "hasRepeatedWord words =
     list_ex (\<lambda>w. w \<noteq> ''constructor'' \<and> 3 \<le> count_list words w) (remdups words)"

definition analyzeSentenceSignals :: "string \<Rightarrow> nat" where
  \<comment> \<open>the field \<open>count\<close> of the result\<close>
  "analyzeSentenceSignals s =
     (let t = trim s;
          low = toLowerCase t;
          generic = test (wholeWord (alts (map lit
                      [''in conclusion'', ''overall'', ''this paper'', ''this document'',
                       ''this study'', ''the purpose of'']))) low;
          template = test
            (Alt (Alt (seqs [LineStart, Star (OneOf spaceChars),
                             alts (map litI [''first'', ''second'', ''third'', ''finally'',
                                             ''in the first'', ''in the second'']),
                             WordBoundary])
                      (seqs [WordBoundary, oneOrMore (OneOf digitChars), OneOf ''.'']))
                 (wholeWord (alts (map litI [''i'', ''ii'', ''iii''])))) t;
          transition = test (wholeWord (alts (map lit
                      [''moreover'', ''furthermore'', ''therefore'', ''however'', ''thus'',
                       ''consequently'', ''additionally'']))) low;
          words = normalizeToWordsClient t;
          repetitive = hasRepeatedWord words;
          vague = test (wholeWord (alts (map lit
                      [''some'', ''many'', ''various'', ''several'', ''often'', ''generally'',
                       ''typically'', ''may'', ''might'', ''could'']))) low;
          pronouns = countMatches (wholeWord (alts (map litI
                      [''i'', ''we'', ''my'', ''our'', ''us'', ''mine'']))) t;
          mechanical = (pronouns = 0 \<and> 6 < length words);
          passive = test
            (Alt (seqs [WordBoundary, lit ''is'', oneOrMore (OneOf spaceChars),
                        oneOrMore (OneOf wordChars), lit ''ed'', WordBoundary])
                 (seqs [WordBoundary, lit ''was'', oneOrMore (OneOf spaceChars),
                        oneOrMore (OneOf wordChars), lit ''ed'', WordBoundary])) low;
          hasNumber = test (OneOf digitChars) t;
          hasProper = test (wholeWord (Seq (OneOf upperChars) (twoOrMore (OneOf lowerChars)))) t;
          nonspecific = (\<not> hasNumber \<and> \<not> hasProper \<and> 6 < length words)
      in length (filter id [generic, template, transition, repetitive, vague, mechanical,
                            passive, nonspecific]))"

record candidate =
  c_i :: nat
  c_count :: nat
  c_len :: nat

record highlighting =
  hl_sentencesWithDelimiters :: "string list"
  hl_highlightedIndices :: "nat list"
  hl_highlightedCharCount :: nat
  hl_highlightedPercent :: int

definition sentencesWithDelimiters :: "string \<Rightarrow> string list \<Rightarrow> string list" where
  \<comment> \<open>\<open>(text && text.match(/[^.!?]+[.!?]*\s*/g)) || doc.sentences || []\<close>\<close>
  "sentencesWithDelimiters text docSentences =
     (let m = matchStrings (Seq (oneOrMore (NoneOf ''.!?''))
                              (Seq (Star (OneOf ''.!?'')) (Star (OneOf spaceChars)))) text
      in if text \<noteq> [] \<and> m \<noteq> [] then m else docSentences)"

definition highlightCandidates :: "string list \<Rightarrow> candidate list" where
  "highlightCandidates sentences =
     filter (\<lambda>c. 3 \<le> c_count c)
       (map (\<lambda>(i, s). \<lparr>c_i = i, c_count = analyzeSentenceSignals s, c_len = length s\<rparr>)
          (enumerate 0 sentences))"

definition acceptCandidates :: "nat \<Rightarrow> candidate list \<Rightarrow> nat \<times> nat list" where
  \<comment> \<open>the loop \<open>for (const c of candidates)\<close> with its variables \<open>sum\<close> and
      \<open>highlightedIndices\<close>\<close>
  "acceptCandidates cap cs =
     fold (\<lambda>c (sum, highlightedIndices).
             if sum + c_len c \<le> cap then (sum + c_len c, highlightedIndices @ [c_i c])
             else (sum, highlightedIndices))
          cs (0, [])"

definition selectHighlights :: "string \<Rightarrow> string list \<Rightarrow> highlighting" where
  \<comment> \<open>the part of the \<open>filesContent\<close> entry of a document that selects the highlights;
      the comparator of \<open>sort\<close> orders by falling count, then by rising length\<close>
  "selectHighlights text docSentences =
     (let sentences = sentencesWithDelimiters text docSentences;
          candidates = highlightCandidates sentences;
          totalLen = (if length text \<noteq> 0 then length text
                      else max 1 (length (concat sentences)));
          sorted = sort_key (\<lambda>c. (- int (c_count c), c_len c)) candidates;
          cap = nat \<lfloor>real totalLen * 0.30\<rfloor>;
          accepted = acceptCandidates cap sorted
      in \<lparr>hl_sentencesWithDelimiters = sentences,
          hl_highlightedIndices = snd accepted,
          hl_highlightedCharCount = fst accepted,
          hl_highlightedPercent = round ((real (fst accepted) / real totalLen) * 100)\<rparr>)"

definition highlightDocument :: "string \<Rightarrow> highlighting" where
  \<comment> \<open>\<open>doc.sentences\<close> is \<open>splitToSentences(doc.text)\<close>\<close>
  "highlightDocument text = selectHighlights text (splitToSentences text)"

definition isBlank :: "string \<Rightarrow> bool" where
  \<comment> \<open>empty, or white space only\<close>
  "isBlank text = list_all isSpace text"


section \<open>Predicates used in the proofs\<close>


text \<open>A sentence record describes a span of the text that is not empty and whose trimmed
  content is the record's text; a list of records lies below a bound, in source order.\<close>

definition spanOk :: "string \<Rightarrow> sentence \<Rightarrow> bool" where
  "spanOk text s =
     (s_start s < s_end s \<and> s_end s \<le> length text
      \<and> s_text s = trim (slice text (s_start s) (s_end s)) \<and> s_text s \<noteq> [])"

definition spansOk :: "string \<Rightarrow> nat \<Rightarrow> sentence list \<Rightarrow> bool" where
  "spansOk text bound ss =
     (list_all (\<lambda>s. spanOk text s \<and> s_end s \<le> bound) ss
      \<and> sorted_wrt (\<lambda>a b. s_end a \<le> s_start b) ss)"

text \<open>\<open>mustRead P r\<close>: every match of \<open>r\<close> reads a character with the property
  \<open>P\<close>, so \<open>r\<close> has no match in a text without such a character.\<close>

primrec mustRead :: "(char \<Rightarrow> bool) \<Rightarrow> regex \<Rightarrow> bool" where
  "mustRead P (OneOf cs) = list_all P cs"
| "mustRead P (NoneOf cs) = False"
| "mustRead P AnyChar = False"
| "mustRead P WordBoundary = False"
| "mustRead P LineStart = False"
| "mustRead P (LookBehind cs) = False"
| "mustRead P Empty = False"
| "mustRead P (Seq a b) = (mustRead P a \<or> mustRead P b)"
| "mustRead P (Alt a b) = (mustRead P a \<and> mustRead P b)"
| "mustRead P (Star a) = False"

definition isInk :: "char \<Rightarrow> bool" where
  "isInk c = (\<not> isSpace c)"

definition isBackspace :: "char \<Rightarrow> bool" where
  "isBackspace c = (c = CHR 0x08)"

definition catText :: string where
  "catText = ''The cat sat on the mat. The cat sat on the mat. The cat sat on the mat.''"

definition catSentence :: string where
  "catSentence = ''The cat sat on the mat.''"

definition manySentences :: "nat \<Rightarrow> string" where
  \<comment> \<open>\<open>'a. '.repeat(n)\<close>\<close>
  "manySentences n = concat (replicate n ''a. '')"


section \<open>Properties of the tokenizer\<close>


lemma isSpace_space: "isSpace CHR '' ''"
  by (simp add: isSpace_def)



lemma set_collapseWs:
  "c \<in> set (collapseWs s) \<Longrightarrow> c = CHR '' '' \<or> (c \<in> set s \<and> \<not> isSpace c)"
  by (induction s rule: collapseWs.induct) (auto split: if_splits dest: set_dropWhileD)


















section \<open>Properties of the sentence splitter\<close>

lemma spansOk_snoc:
  assumes "spansOk text lo ss" and "spanOk text s" and "lo \<le> s_start s" and "s_end s \<le> hi"
  shows "spansOk text hi (ss @ [s])"
proof -
  from assms(2) have "s_start s < s_end s" by (simp add: spanOk_def)
  with assms show ?thesis
    by (auto simp: spansOk_def list_all_iff sorted_wrt_append)
qed

lemma spansOk_mono: "spansOk text lo ss \<Longrightarrow> lo \<le> hi \<Longrightarrow> spansOk text hi ss"
  by (auto simp: spansOk_def list_all_iff)

lemma splitLoop_inv:
  "spansOk text lastIndex sentences \<Longrightarrow> lastIndex \<le> length text \<Longrightarrow>
     (case splitLoop text lastIndex sentences of
        (ss, li) \<Rightarrow> spansOk text li ss \<and> li \<le> length text)"
proof (induction "text" lastIndex sentences rule: splitLoop.induct)
  case (1 t lastIndex sentences)
  show ?case
  proof (cases "execSentenceEnd t lastIndex")
    case None
    with 1 show ?thesis by (simp add: splitLoop.simps [of t lastIndex sentences])
  next
    case (Some m)
    obtain idx len where m: "m = (idx, len)" by (cases m)
    define endIndex where "endIndex = idx + len"
    define sent where "sent = trim (slice t lastIndex endIndex)"
    define acc where "acc = (if sent \<noteq> []
                 then sentences @ [\<lparr>s_text = sent, s_start = lastIndex, s_end = endIndex\<rparr>]
                 else sentences)"
    from Some m have ex: "execSentenceEnd t lastIndex = Some (idx, len)" by simp
    from execSentenceEnd_Some [OF ex]
    have b: "lastIndex < endIndex" "endIndex \<le> length t" by (auto simp: endIndex_def)
    have acc: "spansOk t endIndex acc"
    proof (cases "sent = []")
      case True
      with 1(2) b show ?thesis by (auto simp: acc_def intro: spansOk_mono)
    next
      case False
      have "spanOk t \<lparr>s_text = sent, s_start = lastIndex, s_end = endIndex\<rparr>"
        using b False by (simp add: spanOk_def sent_def)
      from spansOk_snoc [OF 1(2) this] False show ?thesis by (simp add: acc_def)
    qed
    have step: "splitLoop t lastIndex sentences = splitLoop t endIndex acc"
      using ex by (simp add: Let_def endIndex_def sent_def acc_def splitLoop.simps [of t lastIndex sentences])
    have "case splitLoop t endIndex acc of (ss, li) \<Rightarrow> spansOk t li ss \<and> li \<le> length t"
      using "1.IH" [OF Some m [symmetric] endIndex_def sent_def] acc b(2)
      by (simp add: acc_def)
    with step show ?thesis by simp
  qed
qed

lemma trim_nonempty: "trim s \<noteq> [] \<Longrightarrow> \<not> list_all isSpace s"
proof
  assume a: "trim s \<noteq> []" and b: "list_all isSpace s"
  from b have "dropWhile isSpace s = []" by (simp add: list_all_iff)
  with a show False by (simp add: trim_def)
qed

text \<open>
  Claim C6. Every sentence that \<open>splitSentencesWithPosition\<close> emits has its start offset
  strictly below its end offset and its end offset at most the length of the text; its
  text is the trimmed span, which is not empty, so the span is not white space only; and
  in the emitted order every sentence ends at or before the start of each later one, so
  the start offsets are strictly increasing.
\<close>

theorem splitSentences_spans:
  "list_all (\<lambda>s. s_start s < s_end s \<and> s_end s \<le> length text
                 \<and> s_text s = trim (slice text (s_start s) (s_end s)) \<and> s_text s \<noteq> []
                 \<and> \<not> list_all isSpace (slice text (s_start s) (s_end s)))
            (splitSentencesWithPosition text)
   \<and> sorted_wrt (\<lambda>a b. s_start a < s_start b) (splitSentencesWithPosition text)
   \<and> sorted_wrt (\<lambda>a b. s_end a \<le> s_start b) (splitSentencesWithPosition text)"
proof -
  obtain ss li where sl: "splitLoop text 0 [] = (ss, li)" by (cases "splitLoop text 0 []")
  have "spansOk text 0 []" by (simp add: spansOk_def)
  from splitLoop_inv [OF this] sl have inv: "spansOk text li ss" "li \<le> length text" by auto
  have fin: "spansOk text (length text) (splitSentencesWithPosition text)"
  proof (cases "li < length text \<and> trim (drop li text) \<noteq> []")
    case True
    then have "spanOk text \<lparr>s_text = trim (drop li text), s_start = li, s_end = length text\<rparr>"
      by (simp add: spanOk_def slice_def)
    from spansOk_snoc [OF inv(1) this] True sl show ?thesis
      by (simp add: splitSentencesWithPosition_def Let_def)
  next
    case False
    with sl inv show ?thesis
      by (auto simp: splitSentencesWithPosition_def Let_def intro: spansOk_mono)
  qed
  have ok: "spanOk text s" if "s \<in> set (splitSentencesWithPosition text)" for s
    using fin that by (auto simp: spansOk_def list_all_iff)
  have 1: "list_all (\<lambda>s. s_start s < s_end s \<and> s_end s \<le> length text
                 \<and> s_text s = trim (slice text (s_start s) (s_end s)) \<and> s_text s \<noteq> []
                 \<and> \<not> list_all isSpace (slice text (s_start s) (s_end s)))
            (splitSentencesWithPosition text)"
  proof (subst list_all_iff, rule ballI)
    fix s assume "s \<in> set (splitSentencesWithPosition text)"
    from ok [OF this] have o: "spanOk text s" .
    then have e: "s_text s = trim (slice text (s_start s) (s_end s))" and ne: "s_text s \<noteq> []"
      and r: "s_start s < s_end s" "s_end s \<le> length text"
      unfolding spanOk_def by blast+
    from e ne have "trim (slice text (s_start s) (s_end s)) \<noteq> []" by metis
    then have "\<not> list_all isSpace (slice text (s_start s) (s_end s))" by (rule trim_nonempty)
    with e ne r
    show "s_start s < s_end s \<and> s_end s \<le> length text
                 \<and> s_text s = trim (slice text (s_start s) (s_end s)) \<and> s_text s \<noteq> []
                 \<and> \<not> list_all isSpace (slice text (s_start s) (s_end s))"
      by blast
  qed
  have 3: "sorted_wrt (\<lambda>a b. s_end a \<le> s_start b) (splitSentencesWithPosition text)"
    using fin by (simp add: spansOk_def)
  have 2: "sorted_wrt (\<lambda>a b. s_start a < s_start b) (splitSentencesWithPosition text)"
  proof (rule sorted_wrt_mono_rel [OF _ 3])
    fix a b assume "a \<in> set (splitSentencesWithPosition text)" and "s_end a \<le> s_start b"
    with ok [of a] show "s_start a < s_start b" by (simp add: spanOk_def)
  qed
  from 1 2 3 show ?thesis by simp
qed

section \<open>The error path of the server score\<close>

lemma variationPoints_fits:
  "length lengths \<le> argLimit \<Longrightarrow>
     variationPoints argLimit lengths
       = Inr (case lengths of
                [] \<Rightarrow> 15
              | n # ns \<Rightarrow> if int (fold max ns n) - int (fold min ns n) < 8 then 15 else 0)"
  by (simp add: variationPoints_def)

lemma variationPoints_throws:
  "argLimit < length lengths \<Longrightarrow> variationPoints argLimit lengths = Inl RangeError"
  by (simp add: variationPoints_def)

lemma variationPoints_nonneg: "variationPoints argLimit lengths = Inr v \<Longrightarrow> 0 \<le> v"
  by (auto simp: variationPoints_def split: if_splits list.splits)

lemma length_sentenceLengths: "length (sentenceLengths sentences) \<le> length sentences"
  by (simp add: sentenceLengths_def)

lemma points_nonneg:
  "0 \<le> consistencyPoints lengths" "0 \<le> vocabularyPoints words"
  "0 \<le> starterPoints sentences" "0 \<le> phrasePoints text" "0 \<le> punctuationPoints text"
  "0 \<le> repetitionPoints words" "0 \<le> referencePoints referenceText words"
  "0 \<le> longDocumentPoints sentences"
  by (simp_all add: consistencyPoints_def vocabularyPoints_def
        starterPoints_def phrasePoints_def punctuationPoints_def repetitionPoints_def
        referencePoints_def longDocumentPoints_def Let_def)

lemma rawScore_nonneg:
  assumes "rawScore argLimit referenceText text sentences words = Inr score"
  shows "0 \<le> score"
proof -
  from assms obtain v where v: "variationPoints argLimit (sentenceLengths sentences) = Inr v"
    and score: "score = consistencyPoints (sentenceLengths sentences) + v
               + vocabularyPoints words + starterPoints sentences + phrasePoints text
               + punctuationPoints text + repetitionPoints words
               + referencePoints referenceText words + longDocumentPoints sentences"
    by (auto simp: rawScore_def split: sum.splits)
  from variationPoints_nonneg [OF v] show ?thesis
    unfolding score by (intro add_nonneg_nonneg points_nonneg)
qed

lemma computeAiLikelihood_range:
  assumes "computeAiLikelihood argLimit referenceText text sentences words = Inr n"
  shows "0 \<le> n \<and> n \<le> 100"
proof (cases "words = []")
  case True
  with assms show ?thesis by (simp add: computeAiLikelihood_def)
next
  case False
  with assms obtain score where
    r: "rawScore argLimit referenceText text sentences words = Inr score"
    and n: "n = min (round score) 100"
    by (auto simp: computeAiLikelihood_def split: sum.splits)
  have "round (0::real) \<le> round score" by (rule round_mono) (rule rawScore_nonneg [OF r])
  with n show ?thesis by simp
qed

lemma computeAiLikelihood_throws:
  "words \<noteq> [] \<Longrightarrow> argLimit < length (sentenceLengths sentences) \<Longrightarrow>
     computeAiLikelihood argLimit referenceText text sentences words = Inl RangeError"
  by (simp add: computeAiLikelihood_def rawScore_def variationPoints_def)

lemma computeAiLikelihood_fits:
  "length (sentenceLengths sentences) \<le> argLimit \<Longrightarrow>
     \<exists>n. computeAiLikelihood argLimit referenceText text sentences words = Inr n"
  by (simp add: computeAiLikelihood_def rawScore_def variationPoints_def)

lemma analyzeSentence_fits:
  assumes "1 \<le> argLimit"
  shows "\<exists>h. analyzeSentence argLimit referenceText s = Inr h
           \<and> computeAiLikelihood argLimit referenceText (h_text h) [h_text h]
                (normalizeToWords (h_text h)) = Inr (h_score h)"
proof -
  have "length (sentenceLengths [s_text s]) \<le> argLimit"
    using length_sentenceLengths [of "[s_text s]"] assms by simp
  from computeAiLikelihood_fits [OF this]
  obtain n where "computeAiLikelihood argLimit referenceText (s_text s) [s_text s]
                    (normalizeToWords (s_text s)) = Inr n" by blast
  then show ?thesis by (simp add: analyzeSentence_def)
qed

lemma collect_all:
  "(\<And>x. x \<in> set xs \<Longrightarrow> \<exists>v. f x = Inr v \<and> P v) \<Longrightarrow>
     \<exists>vs. collect (map f xs) = Inr vs \<and> length vs = length xs \<and> list_all P vs"
proof (induction xs)
  case Nil
  show ?case by simp
next
  case (Cons x xs)
  from Cons.prems [of x] obtain v where v: "f x = Inr v" "P v" by auto
  from Cons.IH Cons.prems obtain vs where
    vs: "collect (map f xs) = Inr vs" "length vs = length xs" "list_all P vs" by auto
  from v vs show ?case by simp
qed

lemma analyzeSentences_fits:
  assumes "1 \<le> argLimit"
  shows "\<exists>hs. analyzeSentences argLimit referenceText text = Inr hs
           \<and> length hs = length (splitSentencesWithPosition text)
           \<and> list_all (\<lambda>h. computeAiLikelihood argLimit referenceText (h_text h) [h_text h]
                               (normalizeToWords (h_text h)) = Inr (h_score h)) hs"
  unfolding analyzeSentences_def
  by (rule collect_all) (rule analyzeSentence_fits [OF assms])

section \<open>The worked scenario of the server pipeline\<close>

lemma catText_words:
  "normalizeToWords catText =
     [''the'', ''cat'', ''sat'', ''on'', ''the'', ''mat'', ''the'', ''cat'', ''sat'', ''on'',
      ''the'', ''mat'', ''the'', ''cat'', ''sat'', ''on'', ''the'', ''mat'']"
  by code_simp

lemma catText_sentences:
  "map s_text (splitSentencesWithPosition catText) = [catSentence, catSentence, catSentence]"
  by code_simp

lemma catText_lengths: "sentenceLengths [catSentence, catSentence, catSentence] = [6, 6, 6]"
  by code_simp

lemma catText_starters:
  "sentenceStarters [catSentence, catSentence, catSentence] = [''the'', ''the'', ''the'']"
  by code_simp

lemma catText_irregular: "countIrregular catText = 0"
  by code_simp

lemma catText_hits: "filter (\<lambda>p. includesStr (toLowerCase catText) p) phrases = []"
  by code_simp

lemma catText_repeated: "repeatedCount (normalizeToWords catText) = 1"
  by code_simp

lemma catText_the: "count_list (normalizeToWords catText) ''the'' = 6"
  by code_simp

lemma catText_unique: "length (remdups (normalizeToWords catText)) = 5"
  by code_simp

lemma catText_consistency: "consistencyPoints [6, 6, 6] = 0"
  by (simp add: consistencyPoints_def mean_def)

lemma catText_variation: "3 \<le> argLimit \<Longrightarrow> variationPoints argLimit [6, 6, 6] = Inr 15"
  by (simp add: variationPoints_def)

lemma catText_vocabulary: "vocabularyPoints (normalizeToWords catText) = 15"
  by (simp add: vocabularyPoints_def catText_unique) (simp add: catText_words)

lemma catText_starter: "starterPoints [catSentence, catSentence, catSentence] = 10"
  by (simp add: starterPoints_def catText_starters)

lemma catText_phrase: "phrasePoints catText = 0"
  by (simp add: phrasePoints_def catText_hits)

lemma catText_punctuation: "punctuationPoints catText = 10"
  by (simp add: punctuationPoints_def catText_irregular)

lemma catText_repetition: "repetitionPoints (normalizeToWords catText) = 10"
  by (simp add: repetitionPoints_def catText_repeated) (simp add: catText_words)

lemma catText_reference: "referencePoints [] (normalizeToWords catText) = 0"
  by (simp add: referencePoints_def)

lemma catText_long: "longDocumentPoints [catSentence, catSentence, catSentence] = 0"
  by (simp add: longDocumentPoints_def)

lemma catText_score:
  "3 \<le> argLimit \<Longrightarrow>
     computeAiLikelihood argLimit [] catText (map s_text (splitSentencesWithPosition catText))
       (normalizeToWords catText) = Inr 60"
  by (simp add: computeAiLikelihood_def rawScore_def catText_sentences catText_lengths
        catText_consistency catText_variation catText_vocabulary catText_starter catText_phrase
        catText_punctuation catText_repetition catText_reference catText_long)
     (simp add: catText_words)

text \<open>
  Claim C1, as the code has it. With no reference text, and on an engine that accepts
  three arguments in a call, the text
  ``The cat sat on the mat. The cat sat on the mat. The cat sat on the mat.'' gives a
  result with wordCount 18 and sentenceCount 3. The score adds 15 for the uniqueness ratio
  5/18 (five distinct words: the, cat, sat, on, mat), 15 for the sentence-length variation
  0, 10 for the starter ratio 1/3, 10 for no punctuation irregularity and 10 for the
  repeated-word test (one word, ``the'', occurs more than 4 times: 6 times); the
  consistency, phrase, reference and long-document contributions are 0. The AI
  likelihood is 60.
\<close>

theorem cat_scenario:
  "3 \<le> argLimit \<Longrightarrow>
     (\<exists>r. analyze argLimit [] catText = Inr r
          \<and> r_wordCount r = 18 \<and> r_sentenceCount r = 3 \<and> r_aiLikelihood r = 60)
     \<and> map s_text (splitSentencesWithPosition catText) = [catSentence, catSentence, catSentence]
     \<and> sentenceLengths [catSentence, catSentence, catSentence] = [6, 6, 6]
     \<and> real (length (remdups (normalizeToWords catText)))
          / real (length (normalizeToWords catText)) = 5 / 18
     \<and> vocabularyPoints (normalizeToWords catText) = 15
     \<and> variationPoints argLimit [6, 6, 6] = Inr 15
     \<and> real (length (remdups (sentenceStarters [catSentence, catSentence, catSentence])))
          / real (length (sentenceStarters [catSentence, catSentence, catSentence])) = 1 / 3
     \<and> starterPoints [catSentence, catSentence, catSentence] = 10
     \<and> countIrregular catText = 0
     \<and> punctuationPoints catText = 10
     \<and> count_list (normalizeToWords catText) ''the'' = 6
     \<and> repeatedCount (normalizeToWords catText) = 1
     \<and> repetitionPoints (normalizeToWords catText) = 10
     \<and> consistencyPoints [6, 6, 6] = 0
     \<and> phrasePoints catText = 0
     \<and> referencePoints [] (normalizeToWords catText) = 0
     \<and> longDocumentPoints [catSentence, catSentence, catSentence] = 0
     \<and> computeAiLikelihood argLimit [] catText (map s_text (splitSentencesWithPosition catText))
          (normalizeToWords catText) = Inr 60"
proof -
  assume lim: "3 \<le> argLimit"
  then have "1 \<le> argLimit" by simp
  from analyzeSentences_fits [OF this, of "[]" catText]
  obtain hs where hs: "analyzeSentences argLimit [] catText = Inr hs"
    and len: "length hs = length (splitSentencesWithPosition catText)" by blast
  have "length (map s_text (splitSentencesWithPosition catText)) = 3"
    by (simp only: catText_sentences) simp
  with len have len3: "length hs = 3" by simp
  have res: "\<exists>r. analyze argLimit [] catText = Inr r
          \<and> r_wordCount r = 18 \<and> r_sentenceCount r = 3 \<and> r_aiLikelihood r = 60"
    by (simp add: analyze_def Let_def catText_score [OF lim] hs len3) (simp add: catText_words)
  have ur: "real (length (remdups (normalizeToWords catText)))
        / real (length (normalizeToWords catText)) = 5 / 18"
    by (simp add: catText_unique) (simp add: catText_words)
  have sr: "real (length (remdups (sentenceStarters [catSentence, catSentence, catSentence])))
        / real (length (sentenceStarters [catSentence, catSentence, catSentence])) = 1 / 3"
    by (simp add: catText_starters)
  from res ur sr catText_score [OF lim] catText_variation [OF lim]
    catText_sentences catText_lengths catText_vocabulary
    catText_starter catText_irregular catText_punctuation catText_the catText_repeated
    catText_repetition catText_consistency catText_phrase catText_reference catText_long
  show ?thesis by blast
qed

theorem cat_scenario_witness:
  "(3::nat) \<le> 65535
   \<and> (\<exists>r. analyze 65535 [] catText = Inr r
          \<and> r_wordCount r = 18 \<and> r_sentenceCount r = 3 \<and> r_aiLikelihood r = 60)
   \<and> computeAiLikelihood 65535 [] catText (map s_text (splitSentencesWithPosition catText))
        (normalizeToWords catText) = Inr 60"
proof -
  have lim: "(3::nat) \<le> 65535" by simp
  from cat_scenario [OF lim] lim show ?thesis by blast
qed

theorem cat_scenario_uniqueness_counterexample:
  "real (length (remdups (normalizeToWords catText)))
     / real (length (normalizeToWords catText)) \<noteq> 6 / 18"
  by (simp add: catText_unique) (simp add: catText_words)

section \<open>Labels\<close>

text \<open>
  Claim C8, as the code has it. The \<open>labelAiScore\<close> of server.js gives ``Human-written''
  exactly below 35, ``Mixed (AI + Human)'' exactly from 35 and below 70, and
  ``Likely AI-generated'' exactly from 70. The \<open>labelAiScore\<close> of the client script has
  other thresholds and another middle label: ``Human-written'' exactly up to 30, ``Mixed''
  exactly above 30 and up to 60, ``Likely AI-generated'' exactly above 60.
\<close>

theorem labelAiScore_thresholds:
  "(labelAiScore p = ''Human-written'' \<longleftrightarrow> p < 35)
   \<and> (labelAiScore p = ''Mixed (AI + Human)'' \<longleftrightarrow> 35 \<le> p \<and> p < 70)
   \<and> (labelAiScore p = ''Likely AI-generated'' \<longleftrightarrow> 70 \<le> p)
   \<and> (labelAiScoreClient p = ''Human-written'' \<longleftrightarrow> p \<le> 30)
   \<and> (labelAiScoreClient p = ''Mixed'' \<longleftrightarrow> 30 < p \<and> p \<le> 60)
   \<and> (labelAiScoreClient p = ''Likely AI-generated'' \<longleftrightarrow> 60 < p)"
  by (simp add: labelAiScore_def labelAiScoreClient_def)

theorem labelAiScoreClient_counterexample:
  "labelAiScoreClient 32 \<noteq> ''Human-written'' \<and> (32::int) < 35
   \<and> labelAiScoreClient 65 \<noteq> ''Mixed (AI + Human)'' \<and> (35::int) \<le> 65 \<and> (65::int) < 70"
  by (simp add: labelAiScoreClient_def)

section \<open>Scoring one sentence\<close>

text \<open>
  Claim C10. When \<open>computeAiLikelihood\<close> gets a sentence list of length 1, the starter
  ratio is 1, so the starter contribution is 0, and the sentence count is 1, so the
  long-document contribution is 0: on an engine that accepts one argument in a call the
  score is the sum of the seven other contributions. \<open>analyzeSentences\<close> scores every
  sentence with such a list, \<open>[s.text]\<close>, and returns a result for every text.
\<close>

theorem single_sentence_contributions:
  "length sentences = 1 \<Longrightarrow> 1 \<le> argLimit \<Longrightarrow>
     real (length (remdups (sentenceStarters sentences)))
       / real (length (sentenceStarters sentences)) = 1
     \<and> starterPoints sentences = 0
     \<and> longDocumentPoints sentences = 0
     \<and> (\<exists>variation.
           variationPoints argLimit (sentenceLengths sentences) = Inr variation
           \<and> rawScore argLimit referenceText text sentences words
               = Inr (consistencyPoints (sentenceLengths sentences)
                      + variation + vocabularyPoints words
                      + phrasePoints text + punctuationPoints text + repetitionPoints words
                      + referencePoints referenceText words))
     \<and> (\<exists>hs. analyzeSentences argLimit referenceText text = Inr hs
              \<and> length hs = length (splitSentencesWithPosition text)
              \<and> list_all (\<lambda>h. computeAiLikelihood argLimit referenceText (h_text h) [h_text h]
                                  (normalizeToWords (h_text h)) = Inr (h_score h)) hs)"
proof -
  assume one: "length sentences = 1" and lim: "1 \<le> argLimit"
  from one obtain s where s: "sentences = [s]" by (cases sentences) auto
  have fits: "length (sentenceLengths sentences) \<le> argLimit"
    using length_sentenceLengths [of sentences] one lim by simp
  have ratio: "real (length (remdups (sentenceStarters sentences)))
       / real (length (sentenceStarters sentences)) = 1"
    by (simp add: s sentenceStarters_def)
  have st: "starterPoints sentences = 0"
    by (simp add: s sentenceStarters_def starterPoints_def)
  have ld: "longDocumentPoints sentences = 0"
    by (simp add: s longDocumentPoints_def)
  have raw: "\<exists>variation.
           variationPoints argLimit (sentenceLengths sentences) = Inr variation
           \<and> rawScore argLimit referenceText text sentences words
               = Inr (consistencyPoints (sentenceLengths sentences)
                      + variation + vocabularyPoints words
                      + phrasePoints text + punctuationPoints text + repetitionPoints words
                      + referencePoints referenceText words)"
    using variationPoints_fits [OF fits] by (simp add: rawScore_def st ld)
  from ratio st ld raw analyzeSentences_fits [OF lim, of referenceText "text"]
  show ?thesis by blast
qed

theorem single_sentence_contributions_witness:
  "length [''Overall, it works.''] = 1 \<and> (1::nat) \<le> 65535
   \<and> starterPoints [''Overall, it works.''] = 0
   \<and> longDocumentPoints [''Overall, it works.''] = 0
   \<and> (\<exists>hs. analyzeSentences 65535 [] ''Overall, it works.'' = Inr hs
            \<and> length hs = length (splitSentencesWithPosition ''Overall, it works.''))"
proof -
  have one: "length [''Overall, it works.''] = 1" by simp
  have lim: "(1::nat) \<le> 65535" by simp
  from single_sentence_contributions [OF one lim, of "[]" "''Overall, it works.''" "[]"] one lim
  show ?thesis by blast
qed

section \<open>Ranges of the scores\<close>

lemma round_clamp_percent:
  fixes x :: real
  shows "0 \<le> round (max 0 (min 100 x))" and "round (max 0 (min 100 x)) \<le> 100"
proof -
  have "round (0::real) \<le> round (max 0 (min 100 x))" by (rule round_mono) simp
  then show "0 \<le> round (max 0 (min 100 x))" by simp
  have "round (max 0 (min 100 x)) \<le> round (100::real)" by (rule round_mono) simp
  then show "round (max 0 (min 100 x)) \<le> 100" by simp
qed

lemma round_clamp_unit:
  fixes x :: real
  shows "0 \<le> round (max 0 (min 1 x) * 100)" and "round (max 0 (min 1 x) * 100) \<le> 100"
proof -
  have "round (0::real) \<le> round (max 0 (min 1 x) * 100)" by (rule round_mono) simp
  then show "0 \<le> round (max 0 (min 1 x) * 100)" by simp
  have "max 0 (min 1 x) * 100 \<le> 100" by simp
  then have "round (max 0 (min 1 x) * 100) \<le> round (100::real)" by (rule round_mono)
  then show "round (max 0 (min 1 x) * 100) \<le> 100" by simp
qed

text \<open>
  The AI likelihood of server.js is an error exactly when there are words and more
  sentences with a word than the engine accepts arguments, and an integer from 0 to 100
  otherwise. The AI likelihood of the client script and the content mark are integers from
  0 to 100 for every argument.
\<close>

lemma scores_in_range:
  "(case computeAiLikelihood argLimit referenceText text sentences words of
      Inl e \<Rightarrow> words \<noteq> [] \<and> argLimit < length (sentenceLengths sentences)
    | Inr n \<Rightarrow> (words = [] \<or> length (sentenceLengths sentences) \<le> argLimit)
               \<and> 0 \<le> n \<and> n \<le> 100)
   \<and> 0 \<le> computeAiLikelihoodClient text sentences words
   \<and> computeAiLikelihoodClient text sentences words \<le> 100
   \<and> 0 \<le> computeAiContentScore fd
   \<and> computeAiContentScore fd \<le> 100"
proof -
  have s: "case computeAiLikelihood argLimit referenceText text sentences words of
      Inl e \<Rightarrow> words \<noteq> [] \<and> argLimit < length (sentenceLengths sentences)
    | Inr n \<Rightarrow> (words = [] \<or> length (sentenceLengths sentences) \<le> argLimit)
               \<and> 0 \<le> n \<and> n \<le> 100"
  proof (cases "computeAiLikelihood argLimit referenceText text sentences words")
    case (Inl e)
    then show ?thesis
      by (auto simp: computeAiLikelihood_def rawScore_def variationPoints_def
               split: if_splits sum.splits)
  next
    case (Inr n)
    have "words = [] \<or> length (sentenceLengths sentences) \<le> argLimit"
      using Inr computeAiLikelihood_throws [of words argLimit sentences referenceText "text"]
      by (cases "words = []") (auto simp: not_less [symmetric])
    with Inr computeAiLikelihood_range [OF Inr] show ?thesis by simp
  qed
  have c: "0 \<le> computeAiLikelihoodClient text sentences words"
    "computeAiLikelihoodClient text sentences words \<le> 100"
    unfolding computeAiLikelihoodClient_def Let_def
    using round_clamp_unit by (simp_all del: round_numeral)
  have m: "0 \<le> computeAiContentScore fd" "computeAiContentScore fd \<le> 100"
    unfolding computeAiContentScore_def using round_clamp_percent by simp_all
  from s c m show ?thesis by simp
qed

section \<open>A text with more sentences than the engine accepts arguments\<close>

lemma mem_dropWhile: "c \<in> set s \<Longrightarrow> \<not> P c \<Longrightarrow> c \<in> set (dropWhile P s)"
  by (induction s) auto

lemma mem_collapseWs: "c \<in> set s \<Longrightarrow> \<not> isSpace c \<Longrightarrow> c \<in> set (collapseWs s)"
  by (induction s rule: collapseWs.induct) (auto simp: mem_dropWhile)

lemma mem_trim: "c \<in> set s \<Longrightarrow> \<not> isSpace c \<Longrightarrow> c \<in> set (trim s)"
  by (simp add: trim_def mem_dropWhile)

lemma mem_splitOn: "c \<in> set s \<Longrightarrow> c \<noteq> d \<Longrightarrow> \<exists>w \<in> set (splitOn d s). c \<in> set w"
proof (induction s)
  case Nil
  then show ?case by simp
next
  case (Cons x s)
  show ?case
  proof (cases "x = d")
    case True
    with Cons show ?thesis by auto
  next
    case False
    show ?thesis
    proof (cases "splitOn d s")
      case Nil
      with False Cons show ?thesis by auto
    next
      case (Cons v vs)
      with False Cons.IH Cons.prems show ?thesis by auto
    qed
  qed
qed

lemma words_of_letter: "CHR ''a'' \<in> set text \<Longrightarrow> normalizeToWords text \<noteq> []"
proof -
  assume "CHR ''a'' \<in> set text"
  then have "toLowerChar CHR ''a'' \<in> set (toLowerCase text)" by (simp add: toLowerCase_def)
  then have "CHR ''a'' \<in> set (toLowerCase text)" by (simp add: toLowerChar_def)
  then have "CHR ''a'' \<in> set (filter (\<lambda>c. c \<notin> set punctuationServer) (toLowerCase text))"
    by (simp add: punctuationServer_def)
  moreover have ns: "\<not> isSpace CHR ''a''" by (simp add: isSpace_def)
  ultimately have "CHR ''a'' \<in> set (cleanText punctuationServer text)"
    unfolding cleanText_def by (intro mem_trim mem_collapseWs)
  then obtain w where "w \<in> set (splitOn CHR '' '' (cleanText punctuationServer text))"
    and "CHR ''a'' \<in> set w"
    using mem_splitOn [of "CHR ''a''" _ "CHR '' ''"] by auto
  then have "w \<in> set (normalizeToWords text)" by (auto simp: normalizeToWords_def)
  then show ?thesis by auto
qed

lemma manySentences_shape:
  "manySentences (Suc k) = ''a.'' @ concat (replicate k '' a.'') @ '' ''"
  by (induction k) (simp_all add: manySentences_def)

lemma length_spaced: "length (concat (replicate k '' a.'')) = 3 * k"
  by (induction k) simp_all

lemma no_terminator_run: "R = [] \<or> \<not> isTerminator (hd R) \<Longrightarrow> takeWhile isTerminator R = []"
  by (cases R) auto

lemma exec_spaced:
  assumes "R = [] \<or> \<not> isTerminator (hd R)"
  shows "execSentenceEnd (P @ '' a.'' @ R) (length P) = Some (length P + 2, 1)"
  using no_terminator_run [OF assms]
  by (simp add: execSentenceEnd_def Let_def isTerminator_def)

lemma exec_first:
  assumes "R = [] \<or> \<not> isTerminator (hd R)"
  shows "execSentenceEnd (''a.'' @ R) 0 = Some (1, 1)"
  using no_terminator_run [OF assms]
  by (simp add: execSentenceEnd_def Let_def isTerminator_def)

lemma exec_rest: "execSentenceEnd (P @ '' '') (length P) = None"
  by (simp add: execSentenceEnd_def Let_def isTerminator_def)

lemma trim_sentence: "trim '' a.'' = ''a.''" "trim ''a.'' = ''a.''" "trim '' '' = []"
  by (simp_all add: trim_def isSpace_def)

lemma spaced_hd:
  "concat (replicate m '' a.'') @ '' '' = [] \<or> \<not> isTerminator (hd (concat (replicate m '' a.'') @ '' ''))"
  by (cases m) (simp_all add: isTerminator_def)

lemma loop_spaced:
  "case splitLoop (P @ concat (replicate m '' a.'') @ '' '') (length P) acc of
     (ss, li) \<Rightarrow> map s_text ss = map s_text acc @ replicate m ''a.'' \<and> li = length P + 3 * m"
proof (induction m arbitrary: P acc)
  case 0
  show ?case
    using exec_rest [of P]
    by (simp add: splitLoop.simps [of "P @ '' ''" "length P" acc])
next
  case (Suc m)
  define R where "R = concat (replicate m '' a.'') @ '' ''"
  define t where "t = P @ '' a.'' @ R"
  have ex: "execSentenceEnd t (length P) = Some (length P + 2, 1)"
    unfolding t_def R_def by (rule exec_spaced) (rule spaced_hd)
  have sl: "slice t (length P) (length P + 2 + 1) = '' a.''"
    by (simp add: slice_def t_def)
  define acc' where
    "acc' = acc @ [\<lparr>s_text = ''a.'', s_start = length P, s_end = length P + 2 + 1\<rparr>]"
  have step: "splitLoop t (length P) acc = splitLoop t (length P + 2 + 1) acc'"
    by (subst splitLoop.simps,
        simp only: ex option.case prod.case Let_def sl trim_sentence,
        simp add: acc'_def)
  have t': "t = (P @ '' a.'') @ concat (replicate m '' a.'') @ '' ''"
    by (simp add: t_def R_def)
  have len: "length (P @ '' a.'') = length P + 2 + 1" by simp
  from Suc.IH [where P = "P @ '' a.''" and acc = acc']
  have "case splitLoop t (length P + 2 + 1) acc' of
     (ss, li) \<Rightarrow> map s_text ss = map s_text acc' @ replicate m ''a.''
                 \<and> li = length P + 2 + 1 + 3 * m"
    unfolding t' len .
  with step have "case splitLoop t (length P) acc of
     (ss, li) \<Rightarrow> map s_text ss = map s_text acc @ replicate (Suc m) ''a.''
                 \<and> li = length P + 3 * Suc m"
    by (auto simp: acc'_def)
  moreover have "P @ concat (replicate (Suc m) '' a.'') @ '' '' = t"
    by (simp add: t_def R_def)
  ultimately show ?case by simp
qed

lemma manySentences_split:
  "map s_text (splitSentencesWithPosition (manySentences (Suc k))) = replicate (Suc k) ''a.''"
proof -
  define R where "R = concat (replicate k '' a.'') @ '' ''"
  define t where "t = ''a.'' @ R"
  have t: "manySentences (Suc k) = t" by (simp add: manySentences_shape t_def R_def)
  have ex: "execSentenceEnd t 0 = Some (1, 1)"
    unfolding t_def R_def by (rule exec_first) (rule spaced_hd)
  have sl: "slice t 0 (1 + 1) = ''a.''" by (simp add: slice_def t_def)
  define acc where "acc = [\<lparr>s_text = ''a.'', s_start = 0, s_end = 1 + 1\<rparr>]"
  have step: "splitLoop t 0 [] = splitLoop t (1 + 1) acc"
    by (subst splitLoop.simps,
        simp only: ex option.case prod.case Let_def sl trim_sentence,
        simp add: acc_def)
  obtain ss li where r: "splitLoop t (1 + 1) acc = (ss, li)" by (cases "splitLoop t (1 + 1) acc")
  have "case splitLoop (''a.'' @ concat (replicate k '' a.'') @ '' '') (length ''a.'') acc of
     (ss, li) \<Rightarrow> map s_text ss = map s_text acc @ replicate k ''a.''
                 \<and> li = length ''a.'' + 3 * k"
    by (rule loop_spaced)
  with r have ss: "map s_text ss = replicate (Suc k) ''a.''" and li: "li = 2 + 3 * k"
    by (simp_all add: t_def R_def acc_def)
  have lt: "length t = 2 + 3 * k + 1" by (simp add: t_def R_def length_spaced)
  have "drop (length (''a.'' @ concat (replicate k '' a.''))) t = '' ''"
    unfolding t_def R_def by simp
  then have dr: "drop li t = '' ''" by (simp add: li length_spaced)
  have whole: "splitLoop t 0 [] = (ss, li)" by (simp only: step r)
  have below: "li < length t" by (simp add: li lt)
  have "splitSentencesWithPosition t = ss"
    unfolding splitSentencesWithPosition_def whole
    by (simp add: below dr trim_sentence)
  with ss t show ?thesis by simp
qed

lemma sentenceLengths_replicate: "sentenceLengths (replicate n ''a.'') = replicate n 1"
proof -
  have w: "normalizeToWords ''a.'' = [''a'']" by code_simp
  show ?thesis by (induction n) (simp_all add: sentenceLengths_def w)
qed

text \<open>
  Claim C2 says that every text gets an AI likelihood from 0 to 100. The handler of
  server.js gives no score to the text \<open>'a. '.repeat(n)\<close> when \<open>n\<close> is more than the
  number of arguments the engine accepts in a call: the text has \<open>n\<close> sentences with a
  word, the spread call \<open>Math.max(...lengths)\<close> throws a \<open>RangeError\<close>, and the handler
  answers with an error. Whenever \<open>computeAiLikelihood\<close> returns, its result is from 0
  to 100, and the AI likelihood and the content mark of the client script are from 0 to
  100 for every argument (see \<open>scores_in_range\<close>).
\<close>

theorem many_sentences_range_error:
  "map s_text (splitSentencesWithPosition (manySentences (Suc argLimit)))
     = replicate (Suc argLimit) ''a.''
   \<and> computeAiLikelihood argLimit referenceText (manySentences (Suc argLimit))
        (map s_text (splitSentencesWithPosition (manySentences (Suc argLimit))))
        (normalizeToWords (manySentences (Suc argLimit))) = Inl RangeError
   \<and> analyze argLimit referenceText (manySentences (Suc argLimit)) = Inl RangeError"
proof -
  have "CHR ''a'' \<in> set (manySentences (Suc argLimit))"
    by (simp add: manySentences_shape)
  then have w: "normalizeToWords (manySentences (Suc argLimit)) \<noteq> []" by (rule words_of_letter)
  have "argLimit < length (sentenceLengths (replicate (Suc argLimit) ''a.''))"
    unfolding sentenceLengths_replicate by simp
  from computeAiLikelihood_throws [OF w this]
  have c: "computeAiLikelihood argLimit referenceText (manySentences (Suc argLimit))
        (map s_text (splitSentencesWithPosition (manySentences (Suc argLimit))))
        (normalizeToWords (manySentences (Suc argLimit))) = Inl RangeError"
    by (simp only: manySentences_split)
  then have "analyze argLimit referenceText (manySentences (Suc argLimit)) = Inl RangeError"
    by (simp add: analyze_def Let_def)
  with c manySentences_split show ?thesis by blast
qed

section \<open>Similarity\<close>

lemma similarity_formula:
  "inputWords \<noteq> [] \<Longrightarrow>
     computeSimilarityPercentage inputWords referenceWords
       = real (length (filter (\<lambda>w. w \<in> set referenceWords) inputWords))
           / real (length inputWords) * 100"
  by (simp add: computeSimilarityPercentage_def)

text \<open>
  Claim C7, as the code has it. For words of A that are not empty the similarity is
  common(wordsA, wordsB) / len(wordsA) * 100, so it is 100 for two documents with the same
  words and 0 for disjoint vocabularies; for a document A without words it is 0, whatever
  B is. The best match of the only document of a batch is the empty name with 0.
\<close>

theorem similarity_cases:
  "wordsA \<noteq> [] \<Longrightarrow>
     computeSimilarityPercentage wordsA wordsB
       = real (length (filter (\<lambda>w. w \<in> set wordsB) wordsA)) / real (length wordsA) * 100
     \<and> computeSimilarityPercentage wordsA wordsA = 100
     \<and> (set wordsA \<inter> set wordsB = {} \<longrightarrow> computeSimilarityPercentage wordsA wordsB = 0)
     \<and> computeSimilarityPercentage [] wordsB = 0
     \<and> bestMatch [doc] 0 = ([], 0)"
proof -
  assume ne: "wordsA \<noteq> []"
  have same: "filter (\<lambda>w. w \<in> set wordsA) wordsA = wordsA" by simp
  have disj: "filter (\<lambda>w. w \<in> set wordsB) wordsA = []" if "set wordsA \<inter> set wordsB = {}"
    using that by (auto simp: filter_empty_conv)
  have bm: "bestMatch [doc] 0 = ([], 0)" by (simp add: bestMatch_def)
  from ne same disj bm show ?thesis
    by (auto simp: computeSimilarityPercentage_def)
qed

theorem similarity_cases_witness:
  "[''a'', ''b''] \<noteq> []
   \<and> computeSimilarityPercentage [''a'', ''b''] [''a'', ''b''] = 100
   \<and> set [''a'', ''b''] \<inter> set [''c''] = {}
   \<and> computeSimilarityPercentage [''a'', ''b''] [''c''] = 0"
  using similarity_cases [of "[''a'', ''b'']" "[''c'']"] by simp

theorem similarity_empty_counterexample:
  "computeSimilarityPercentage [] [] \<noteq> 100"
  by (simp add: computeSimilarityPercentage_def)

section \<open>Highlight coverage\<close>

lemma accept_fold_bound:
  "fst acc \<le> cap \<Longrightarrow>
     fst (fold (\<lambda>c (sum, highlightedIndices).
             if sum + c_len c \<le> cap then (sum + c_len c, highlightedIndices @ [c_i c])
             else (sum, highlightedIndices)) cs acc) \<le> cap"
  by (induction cs arbitrary: acc) (auto split: prod.splits)

lemma acceptCandidates_bound: "fst (acceptCandidates cap cs) \<le> cap"
  unfolding acceptCandidates_def by (rule accept_fold_bound) simp

lemma splitToSentences_empty: "splitToSentences [] = []"
  by code_simp

lemma highlight_empty: "hl_highlightedCharCount (highlightDocument []) = 0"
  unfolding highlightDocument_def splitToSentences_empty
  by (simp add: selectHighlights_def sentencesWithDelimiters_def highlightCandidates_def
        acceptCandidates_def Let_def)

text \<open>
  Claim C3. The highlighted character count of a document is at most
  \<open>\<lfloor>0.30 * totalLen\<rfloor>\<close>, the cap of the selection loop, where \<open>totalLen\<close> is the length of
  the text; so it is at most \<open>\<lceil>0.30 * length text\<rceil>\<close>, for every text.
\<close>

theorem highlight_coverage:
  "int (hl_highlightedCharCount (highlightDocument text)) \<le> \<lfloor>0.30 * real (length text)\<rfloor>
   \<and> int (hl_highlightedCharCount (highlightDocument text)) \<le> \<lceil>0.30 * real (length text)\<rceil>"
proof -
  have fl: "int (hl_highlightedCharCount (highlightDocument text)) \<le> \<lfloor>0.30 * real (length text)\<rfloor>"
  proof (cases "text = []")
    case True
    then show ?thesis by (simp add: highlight_empty)
  next
    case False
    define cs where "cs = sort_key (\<lambda>c. (- int (c_count c), c_len c))
      (highlightCandidates (sentencesWithDelimiters text (splitToSentences text)))"
    define cap where "cap = \<lfloor>real (length text) * 0.30\<rfloor>"
    have cap0: "0 \<le> cap" unfolding cap_def by simp
    have "hl_highlightedCharCount (highlightDocument text) = fst (acceptCandidates (nat cap) cs)"
      using False by (simp add: highlightDocument_def selectHighlights_def Let_def cs_def cap_def)
    also have "\<dots> \<le> nat cap" by (rule acceptCandidates_bound)
    finally have "int (hl_highlightedCharCount (highlightDocument text)) \<le> cap"
      using cap0 by linarith
    then show ?thesis by (simp add: cap_def mult.commute)
  qed
  have "\<lfloor>0.30 * real (length text)\<rfloor> \<le> \<lceil>0.30 * real (length text)\<rceil>"
    by (rule floor_le_ceiling)
  with fl have "int (hl_highlightedCharCount (highlightDocument text))
                  \<le> \<lceil>0.30 * real (length text)\<rceil>"
    by (rule order_trans)
  with fl show ?thesis by (rule conjI)
qed

section \<open>Blank input\<close>

lemma isSpace_toLowerChar: "isSpace c \<Longrightarrow> toLowerChar c = c"
  by (auto simp: isSpace_def toLowerChar_def)

lemma isTerminator_not_space: "isTerminator c \<Longrightarrow> \<not> isSpace c"
  by (auto simp: isSpace_def isTerminator_def)

lemma trim_blank: "list_all isSpace s \<Longrightarrow> trim s = []"
proof -
  assume "list_all isSpace s"
  then have d: "dropWhile isSpace s = []" by (simp add: list_all_iff)
  show ?thesis unfolding trim_def d by simp
qed

lemma toLowerCase_blank: "list_all isSpace s \<Longrightarrow> toLowerCase s = s"
  by (simp add: toLowerCase_def list_all_iff isSpace_toLowerChar map_idI)

lemma collapseWs_blank: "list_all isSpace s \<Longrightarrow> list_all isSpace (collapseWs s)"
proof -
  assume a: "list_all isSpace s"
  have "isSpace c" if "c \<in> set (collapseWs s)" for c
  proof -
    have "c = CHR '' '' \<or> (c \<in> set s \<and> \<not> isSpace c)"
      using set_collapseWs that by blast
    with a isSpace_space show ?thesis by (auto simp: list_all_iff)
  qed
  then show ?thesis by (simp add: list_all_iff)
qed

lemma cleanText_blank: "isBlank text \<Longrightarrow> cleanText punct text = []"
proof -
  assume "isBlank text"
  then have b: "list_all isSpace text" by (simp add: isBlank_def)
  then have "list_all isSpace (filter (\<lambda>c. c \<notin> set punct) text)"
    by (simp add: list_all_iff)
  then have "list_all isSpace (collapseWs (filter (\<lambda>c. c \<notin> set punct) text))"
    by (rule collapseWs_blank)
  then show ?thesis by (simp add: cleanText_def toLowerCase_blank [OF b] trim_blank)
qed

lemma words_blank:
  "isBlank text \<Longrightarrow> normalizeToWords text = []" "isBlank text \<Longrightarrow> normalizeToWordsClient text = []"
  by (simp_all add: normalizeToWords_def normalizeToWordsClient_def cleanText_blank)

lemma splitLoop_blank: "isBlank text \<Longrightarrow> splitLoop text 0 [] = ([], 0)"
proof -
  assume "isBlank text"
  then have "\<not> isTerminator c" if "c \<in> set text" for c
    using that isTerminator_not_space by (auto simp: isBlank_def list_all_iff)
  then have tw: "takeWhile (\<lambda>c. \<not> isTerminator c) (drop 0 text) = drop 0 text"
    by (metis drop0 takeWhile_eq_all_conv)
  have "execSentenceEnd text 0 = None"
    unfolding execSentenceEnd_def Let_def tw by simp
  then show ?thesis by (simp add: splitLoop.simps [of "text" 0 "[]"])
qed

lemma splitSentences_blank: "isBlank text \<Longrightarrow> splitSentencesWithPosition text = []"
proof -
  assume b: "isBlank text"
  then have "trim text = []" by (simp add: isBlank_def trim_blank)
  then show ?thesis by (simp add: splitSentencesWithPosition_def splitLoop_blank [OF b])
qed

lemma set_slice: "set (slice t a b) \<subseteq> set t"
  unfolding slice_def
  by (meson set_take_subset set_drop_subset subset_trans)

lemma set_splitFrom: "\<forall>x \<in> set (splitFrom r t p q). set x \<subseteq> set t"
proof (induction r t p q rule: splitFrom.induct)
  case (1 r t p q)
  show ?case
  proof (cases "length t \<le> q")
    case True
    then show ?thesis using set_slice by (simp add: splitFrom.simps [of r t p q])
  next
    case False
    show ?thesis
    proof (cases "ends r t q")
      case Nil
      with False 1(1) show ?thesis by (simp add: splitFrom.simps [of r t p q])
    next
      case (Cons e es)
      show ?thesis
      proof (cases "min e (length t) = p")
        case True
        with False Cons 1(2) show ?thesis
          by (simp add: splitFrom.simps [of r t p q])
      next
        case ne: False
        with False Cons 1(3) set_slice show ?thesis
          by (simp add: splitFrom.simps [of r t p q])
      qed
    qed
  qed
qed

lemma set_splitRegex: "x \<in> set (splitRegex r t) \<Longrightarrow> set x \<subseteq> set t"
  using set_splitFrom [of r t 0 0] by (auto simp: splitRegex_def split: if_splits)

lemma set_rebuild: "set (rebuild t rep pos ms) \<subseteq> set t \<union> set rep"
proof (induction ms arbitrary: pos)
  case Nil
  show ?case using set_drop_subset [of pos t] by auto
next
  case (Cons m ms)
  obtain a b where m: "m = (a, b)" by (cases m)
  from Cons [of b] set_slice [of t pos a] show ?case by (auto simp: m)
qed

lemma splitToSentences_blank: "isBlank text \<Longrightarrow> splitToSentences text = []"
proof -
  assume "isBlank text"
  then have b: "\<forall>c \<in> set text. isSpace c" by (simp add: isBlank_def list_all_iff)
  define u where "u = replaceAll (oneOrMore (OneOf [CHR 0x0A])) '' '' text"
  have "set u \<subseteq> set text \<union> set '' ''" unfolding u_def replaceAll_def by (rule set_rebuild)
  with b isSpace_space have ub: "\<forall>c \<in> set u. isSpace c" by auto
  have "trim x = []" if "x \<in> set (splitRegex (Seq (LookBehind ''.!?'') (oneOrMore (OneOf spaceChars))) u)" for x
  proof -
    from set_splitRegex [OF that] ub have "list_all isSpace x" by (auto simp: list_all_iff)
    then show ?thesis by (rule trim_blank)
  qed
  then show ?thesis
    unfolding splitToSentences_def u_def [symmetric] by (auto simp: filter_empty_conv)
qed

lemma ends_mustRead: "mustRead P r \<Longrightarrow> list_all (\<lambda>c. \<not> P c) t \<Longrightarrow> ends r t i = []"
proof (induction r arbitrary: i)
  case (OneOf cs)
  then show ?case by (auto simp: list_all_iff)
next
  case (Seq a b)
  then show ?case by (auto simp: concat_eq_Nil_conv)
qed simp_all

lemma matchesFrom_none: "(\<And>j. ends r t j = []) \<Longrightarrow> matchesFrom r t i = []"
proof (induction r t i rule: matchesFrom.induct)
  case (1 r t i)
  show ?case
  proof (cases "length t < i")
    case True
    then show ?thesis by (simp add: matchesFrom.simps [of r t i])
  next
    case False
    with 1 show ?thesis by (simp add: matchesFrom.simps [of r t i])
  qed
qed

lemma countMatches_mustRead:
  "mustRead P r \<Longrightarrow> list_all (\<lambda>c. \<not> P c) t \<Longrightarrow> countMatches r t = 0"
  by (simp add: countMatches_def matchesFrom_none ends_mustRead)

lemma subjectMap_isInk:
  "list_all (\<lambda>(subject, patterns). list_all (mustRead isInk) patterns) subjectMap"
  by code_simp

lemma subjectScores_blank: "isBlank text \<Longrightarrow> subjectScores text = []"
proof -
  assume "isBlank text"
  then have b: "list_all isSpace text" by (simp add: isBlank_def)
  then have nb: "list_all (\<lambda>c. \<not> isInk c) text" by (simp add: isInk_def)
  have "sum_list (map (\<lambda>p. countMatches p text) patterns) = 0"
    if "(subject, patterns) \<in> set subjectMap" for subject patterns
  proof -
    from that subjectMap_isInk have "\<forall>p \<in> set patterns. mustRead isInk p"
      by (auto simp: list_all_iff)
    with nb have "\<forall>p \<in> set patterns. countMatches p text = 0"
      using countMatches_mustRead [of isInk _ "text"] by blast
    then show ?thesis by simp
  qed
  then show ?thesis
    by (auto simp: subjectScores_def toLowerCase_blank [OF b] filter_empty_conv)
qed

lemma detectSubjects_blank: "isBlank text \<Longrightarrow> detectSubjects text = [''General'']"
  by (simp add: detectSubjects_def subjectScores_blank)

text \<open>
  Claim C5. For a text that is empty or white space only, the handler of the server
  returns a result, not an error, with wordCount 0, sentenceCount 0 and aiLikelihood 0,
  whatever the reference text and the engine are; in the client script the words and the
  sentences of the document are empty, its AI likelihood is 0, the content mark of every
  \<open>fileData\<close> with this text is 0, and the subjects are [``General'']. The source has
  no \<open>throw\<close> on these paths: both scores return at their first test, \<open>words.length\<close>,
  before any division and before the spread call.
\<close>

theorem blank_input:
  "isBlank text \<Longrightarrow>
     analyze argLimit referenceText text
       = Inr \<lparr>r_wordCount = 0, r_sentenceCount = 0, r_aiLikelihood = 0,
              r_aiLabel = ''Human-written'', r_preview = slice text 0 300,
              r_highlights = []\<rparr>
     \<and> length (normalizeToWordsClient text) = 0
     \<and> length (splitToSentences text) = 0
     \<and> computeAiLikelihoodClient text (splitToSentences text) (normalizeToWordsClient text) = 0
     \<and> computeAiContentScore (fd\<lparr>fd_text := text\<rparr>) = 0
     \<and> detectSubjects text = [''General'']"
proof -
  assume b: "isBlank text"
  have 1: "analyze argLimit referenceText text
       = Inr \<lparr>r_wordCount = 0, r_sentenceCount = 0, r_aiLikelihood = 0,
              r_aiLabel = ''Human-written'', r_preview = slice text 0 300,
              r_highlights = []\<rparr>"
    by (simp add: analyze_def Let_def computeAiLikelihood_def analyzeSentences_def
          words_blank [OF b] splitSentences_blank [OF b] labelAiScore_def)
  have 4: "computeAiLikelihoodClient text (splitToSentences text) (normalizeToWordsClient text) = 0"
    by (simp add: computeAiLikelihoodClient_def words_blank [OF b])
  have 5: "computeAiContentScore (fd\<lparr>fd_text := text\<rparr>) = 0"
    by (simp add: computeAiContentScore_def words_blank [OF b])
  from 1 4 5 show ?thesis
    by (simp add: words_blank [OF b] splitToSentences_blank [OF b] detectSubjects_blank [OF b])
qed

theorem blank_input_witness:
  "isBlank [CHR '' '', CHR 0x0A, CHR 0x09]
   \<and> analyze 65535 [] [CHR '' '', CHR 0x0A, CHR 0x09]
       = Inr \<lparr>r_wordCount = 0, r_sentenceCount = 0, r_aiLikelihood = 0,
              r_aiLabel = ''Human-written'',
              r_preview = slice [CHR '' '', CHR 0x0A, CHR 0x09] 0 300,
              r_highlights = []\<rparr>
   \<and> detectSubjects [CHR '' '', CHR 0x0A, CHR 0x09] = [''General'']"
proof -
  have b: "isBlank [CHR '' '', CHR 0x0A, CHR 0x09]" by (simp add: isBlank_def isSpace_def)
  from blank_input [OF b] b show ?thesis by blast
qed

section \<open>Subjects that need a backspace\<close>

lemma toLowerChar_backspace:
  assumes "toLowerChar c = CHR 0x08"
  shows "c = CHR 0x08"
proof (cases "(65 \<le> (of_char c :: nat) \<and> (of_char c :: nat) \<le> 90)
              \<or> (192 \<le> (of_char c :: nat) \<and> (of_char c :: nat) \<le> 222 \<and> (of_char c :: nat) \<noteq> 215)")
  case True
  then have "toLowerChar c = char_of (of_char c + 32 :: nat)"
    by (simp add: toLowerChar_def)
  with assms have "(of_char (char_of (of_char c + 32 :: nat)) :: nat) = of_char (CHR 0x08)"
    by simp
  then have m: "(of_char c + 32) mod 256 = (8::nat)" by simp
  from True have "(of_char c :: nat) + 32 < 256" by linarith
  then have "(of_char c + 32) mod 256 = (of_char c :: nat) + 32" by (rule mod_less)
  with m have False by linarith
  then show ?thesis ..
next
  case False
  then have "toLowerChar c = c" by (auto simp: toLowerChar_def Let_def)
  with assms show ?thesis by simp
qed

lemma subjectMap_databases:
  "list_all (\<lambda>(subject, patterns).
               subject \<noteq> ''Databases'' \<or> list_all (mustRead isBackspace) patterns) subjectMap"
  by code_simp

lemma set_detectSubjects:
  "set (detectSubjects text) \<subseteq> fst ` set (subjectScores text) \<union> {''General''}"
proof -
  have "set (take 3 (map fst (sort_key (\<lambda>(subject, count). - int count) (subjectScores text))))
          \<subseteq> fst ` set (subjectScores text)"
    using set_take_subset [of 3 "map fst (sort_key (\<lambda>(subject, count). - int count) (subjectScores text))"]
    by simp
  then show ?thesis by (auto simp: detectSubjects_def Let_def)
qed

lemma databases_needs_backspace:
  assumes "CHR 0x08 \<notin> set text"
  shows "''Databases'' \<notin> set (detectSubjects text)"
proof -
  have "CHR 0x08 \<notin> set (toLowerCase text)"
  proof
    assume "CHR 0x08 \<in> set (toLowerCase text)"
    then obtain c where c: "c \<in> set text" "toLowerChar c = CHR 0x08"
      by (auto simp: toLowerCase_def)
    from toLowerChar_backspace [OF c(2)] c(1) assms show False by simp
  qed
  then have nb: "list_all (\<lambda>c. \<not> isBackspace c) (toLowerCase text)"
    by (auto simp: list_all_iff isBackspace_def)
  have zero: "sum_list (map (\<lambda>p. countMatches p (toLowerCase text)) patterns) = 0"
    if "(''Databases'', patterns) \<in> set subjectMap" for patterns
  proof -
    from that subjectMap_databases have "\<forall>p \<in> set patterns. mustRead isBackspace p"
      by (auto simp: list_all_iff)
    with nb have "\<forall>p \<in> set patterns. countMatches p (toLowerCase text) = 0"
      using countMatches_mustRead [of isBackspace _ "toLowerCase text"] by blast
    then show ?thesis by simp
  qed
  have "''Databases'' \<notin> fst ` set (subjectScores text)"
  proof
    assume "''Databases'' \<in> fst ` set (subjectScores text)"
    then obtain n where "(''Databases'', n) \<in> set (subjectScores text)" by force
    then obtain patterns where p: "(''Databases'', patterns) \<in> set subjectMap"
      and n: "0 < sum_list (map (\<lambda>p. countMatches p (toLowerCase text)) patterns)"
      by (auto simp: subjectScores_def Let_def)
    from zero [OF p] n show False by linarith
  qed
  moreover have "''Databases'' \<noteq> ''General''" by simp
  ultimately show ?thesis using set_detectSubjects [of "text"] by blast
qed

text \<open>
  Claim C4 says that a text containing ``SELECT * FROM users WHERE id=1'' has
  ``Databases'' among its subjects. The code returns [``General''] for this text: the
  patterns of ``Databases'' need backspace characters around the keyword (see
  \<open>databases_needs_backspace\<close>), and with them the answer is ``Databases''.
\<close>

theorem detectSubjects_select:
  "detectSubjects ''SELECT * FROM users WHERE id=1'' = [''General'']
   \<and> detectSubjects (CHR 0x08 # ''select'' @ [CHR 0x08]) = [''Databases'']"
  by code_simp

end
